theory Spec2Isabelle
  imports Complex_Main "HOL-Library.Word" "HOL-Library.Stream"
begin

section \<open>The environment of the program\<close>

text \<open>
  The program talks to four collaborators: the GPIO pin, the serial port, the display and
  the random source. Every call to one of them is recorded, in program order, in a trace.
  What the collaborators answer is not decided by the program, so the answers are read
  from streams held in the world: the levels the pin will show, the values
  \<open>random.random()\<close> will return, and for every fallible call of the serial
  library whether it raises.
\<close>

type_synonym byte = "8 word"

type_synonym frame = nat

datatype exn_class =
    SerialException | PortNotOpenError | AttributeError | ZeroDivisionError
  | ValueError | IndexError | UnicodeDecodeError | UnicodeEncodeError | JSONDecodeError
  | OSError

text \<open>An instance of Python's \<open>Exception\<close>: its class and the text \<open>str(e)\<close> gives.\<close>

datatype exn = Exn exn_class string

fun exn_str :: "exn \<Rightarrow> string" where
  "exn_str (Exn c msg) = msg"

text \<open>\<open>PortNotOpenError\<close> is a subclass of \<open>serial.SerialException\<close>.\<close>

fun is_SerialException :: "exn \<Rightarrow> bool" where
  "is_SerialException (Exn c msg) = (c = SerialException \<or> c = PortNotOpenError)"

datatype event =
    Print string
  | Sleep real
  | Display frame
  | Random real
  | GpioInput int nat
  | SerialOpen string int real "exn option"
  | SerialClose
  | SerialWrite "byte list" "exn option"
  | SerialFlush "exn option"
  | SerialInWaiting "exn option"
  | SerialReadline "byte list" "exn option"

record world =
  trace :: "event list"
  gpio_in :: "nat stream"
  rand_in :: "real stream"
  io_in :: "exn option stream"
  rx :: "byte list"

definition emit :: "event \<Rightarrow> world \<Rightarrow> world" where
  "emit e w = w\<lparr>trace := trace w @ [e]\<rparr>"

text \<open>\<open>print(...)\<close> and \<open>await asyncio.sleep(seconds)\<close>.\<close>

definition print :: "string \<Rightarrow> world \<Rightarrow> world" where
  "print s w = emit (Print s) w"

definition sleep :: "real \<Rightarrow> world \<Rightarrow> world" where
  "sleep t w = emit (Sleep t) w"

text \<open>The events a run added to the trace: those after the ones already there.\<close>

definition events_since :: "world \<Rightarrow> world \<Rightarrow> event list" where
  "events_since w w' = drop (length (trace w)) (trace w')"

section \<open>The button (main.py, class Button)\<close>

definition GPIO_LOW :: nat where
  "GPIO_LOW = 0"

text \<open>\<open>GPIO.input(pin)\<close>: the next level of the pin; reading it is taken to be infallible.\<close>

definition GPIO_input :: "int \<Rightarrow> world \<Rightarrow> nat \<times> world" where
  "GPIO_input p w =
     (shd (gpio_in w),
      emit (GpioInput p (shd (gpio_in w))) (w\<lparr>gpio_in := stl (gpio_in w)\<rparr>))"

record Button =
  pin :: int
  last_state :: bool

definition Button_init :: "int \<Rightarrow> Button" where
  "Button_init p = \<lparr>pin = p, last_state = False\<rparr>"

definition is_pressed :: "Button \<Rightarrow> world \<Rightarrow> bool \<times> world" where
  "is_pressed b w = (case GPIO_input (pin b) w of (v, w') \<Rightarrow> (v = GPIO_LOW, w'))"

definition was_just_pressed :: "Button \<Rightarrow> world \<Rightarrow> bool \<times> Button \<times> world" where
  "was_just_pressed b w =
     (case is_pressed b w of (current_state, w') \<Rightarrow>
        if current_state \<and> \<not> last_state b
        then (True, b\<lparr>last_state := current_state\<rparr>, w')
        else (False, b\<lparr>last_state := current_state\<rparr>, w'))"

text \<open>
  A sequence of \<open>n\<close> polls of one button, as the orchestrator's loop makes them: the
  answers in order, the button and the world after the last one.
\<close>

fun polls :: "nat \<Rightarrow> Button \<Rightarrow> world \<Rightarrow> bool list \<times> Button \<times> world" where
  "polls 0 b w = ([], b, w)"
| "polls (Suc n) b w =
     (case was_just_pressed b w of (r, b', w') \<Rightarrow>
        case polls n b' w' of (rs, b'', w'') \<Rightarrow> (r # rs, b'', w''))"

text \<open>The raw sample of poll \<open>i\<close> reads pressed.\<close>

definition sample_pressed :: "world \<Rightarrow> nat \<Rightarrow> bool" where
  "sample_pressed w i = (gpio_in w !! i = GPIO_LOW)"

section \<open>Text, bytes and numbers as Python formats them\<close>

text \<open>
  A Python \<open>str\<close> is a sequence of code points below 0x110000, lone surrogates
  included: \<open>pystr\<close>. The text the program itself builds is ASCII and is written as a
  \<open>string\<close>, which \<open>str\<close> turns into its code points.
  \<open>str.encode('utf-8')\<close> gives one to four bytes for a code point and raises
  \<open>UnicodeEncodeError\<close> when the text holds a surrogate, naming the first run of
  surrogates.
\<close>

type_synonym pystr = "nat list"

definition str :: "string \<Rightarrow> pystr" where
  "str s = map of_char s"

definition is_surrogate :: "nat \<Rightarrow> bool" where
  "is_surrogate c = (0xD800 \<le> c \<and> c \<le> 0xDFFF)"

definition utf8_bytes :: "nat \<Rightarrow> byte list" where
  "utf8_bytes c =
     (if c < 0x80 then [of_nat c]
      else if c < 0x800 then [of_nat (0xC0 + c div 64), of_nat (0x80 + c mod 64)]
      else if c < 0x10000
      then [of_nat (0xE0 + c div 4096), of_nat (0x80 + c div 64 mod 64), of_nat (0x80 + c mod 64)]
      else [of_nat (0xF0 + c div 262144), of_nat (0x80 + c div 4096 mod 64),
            of_nat (0x80 + c div 64 mod 64), of_nat (0x80 + c mod 64)])"

definition hex_char :: "nat \<Rightarrow> char" where
  "hex_char d = ''0123456789abcdef'' ! d"

definition hex4 :: "nat \<Rightarrow> string" where
  "hex4 c = [hex_char (c div 4096 mod 16), hex_char (c div 256 mod 16),
             hex_char (c div 16 mod 16), hex_char (c mod 16)]"

definition quoted :: "string \<Rightarrow> string" where
  "quoted t = [CHR 0x27] @ t @ [CHR 0x27]"

definition newline :: char where
  "newline = CHR 0x0A"

definition LF :: byte where
  "LF = 10"

text \<open>\<open>str.strip()\<close>: the white space of Python within this range of code points.\<close>

definition is_space :: "char \<Rightarrow> bool" where
  "is_space c = ((of_char c :: nat) \<in> {9, 10, 11, 12, 13, 28, 29, 30, 31, 32, 133, 160})"

definition strip :: "string \<Rightarrow> string" where
  "strip s = rev (dropWhile is_space (rev (dropWhile is_space s)))"

text \<open>The decimal text of an integer, as an f-string formats it.\<close>

definition digit_char :: "nat \<Rightarrow> char" where
  "digit_char d = ''0123456789'' ! d"

function digits10 :: "nat \<Rightarrow> string" where
  "digits10 n = (if n < 10 then [digit_char n] else digits10 (n div 10) @ [digit_char (n mod 10)])"
  by pat_completeness auto
termination
  by (relation "measure id") auto

definition str_int :: "int \<Rightarrow> string" where
  "str_int i = (if i < 0 then CHR ''-'' # digits10 (nat (- i)) else digits10 (nat i))"

text \<open>
  The exception of \<open>encode\<close>: the position of the first surrogate, and the end of
  the run of surrogates that starts there when the run is longer than one.
\<close>

definition surrogate_error :: "pystr \<Rightarrow> exn" where
  "surrogate_error s =
     (let i = length (takeWhile (\<lambda>c. \<not> is_surrogate c) s);
          n = length (takeWhile is_surrogate (drop i s))
      in Exn UnicodeEncodeError
           (quoted ''utf-8'' @ '' codec can'' @ [CHR 0x27]
            @ (if n = 1
               then ''t encode character '' @ quoted ([CHR 0x5C] @ ''u'' @ hex4 (s ! i))
                    @ '' in position '' @ str_int (int i)
               else ''t encode characters in position '' @ str_int (int i) @ ''-''
                    @ str_int (int (i + n) - 1))
            @ '': surrogates not allowed''))"

definition utf8_encode :: "pystr \<Rightarrow> exn + byte list" where
  "utf8_encode s =
     (if list_ex is_surrogate s then Inl (surrogate_error s)
      else Inr (concat (map utf8_bytes s)))"

text \<open>The bytes of a text of the program, which holds no surrogate.\<close>

definition utf8_char :: "char \<Rightarrow> byte list" where
  "utf8_char c = utf8_bytes (of_char c)"

definition encode_utf8 :: "string \<Rightarrow> byte list" where
  "encode_utf8 s = concat (map utf8_char s)"

section \<open>The serial library (pyserial), as far as the program uses it\<close>

text \<open>
  A \<open>serial.Serial\<close> object. Opening the port, \<open>write\<close>, \<open>flush\<close>,
  \<open>in_waiting\<close> and \<open>readline\<close> may raise: each takes its outcome from the head of
  \<open>io_in\<close>. \<open>write\<close> on a closed port raises \<open>PortNotOpenError\<close> without asking.
  A write that raises is taken to have passed nothing on; \<open>close\<close> is taken to be
  infallible. \<open>readline\<close> returns the buffered bytes up to and including the first line
  feed, or all of them when the timeout ends the wait.
\<close>

record Serial =
  is_open :: bool

definition Serial_open :: "string \<Rightarrow> int \<Rightarrow> real \<Rightarrow> world \<Rightarrow> (exn + Serial) \<times> world" where
  "Serial_open p b t w =
     (case shd (io_in w) of
        Some e \<Rightarrow> (Inl e, emit (SerialOpen p b t (Some e)) (w\<lparr>io_in := stl (io_in w)\<rparr>))
      | None \<Rightarrow> (Inr \<lparr>is_open = True\<rparr>, emit (SerialOpen p b t None) (w\<lparr>io_in := stl (io_in w)\<rparr>)))"

definition Serial_close :: "Serial \<Rightarrow> world \<Rightarrow> Serial \<times> world" where
  "Serial_close c w = (c\<lparr>is_open := False\<rparr>, emit SerialClose w)"

definition port_not_open :: exn where
  "port_not_open = Exn PortNotOpenError ''Attempting to use a port that is not open''"

definition Serial_write :: "Serial \<Rightarrow> byte list \<Rightarrow> world \<Rightarrow> (exn + nat) \<times> world" where
  "Serial_write c bs w =
     (if \<not> is_open c then (Inl port_not_open, emit (SerialWrite bs (Some port_not_open)) w)
      else case shd (io_in w) of
        Some e \<Rightarrow> (Inl e, emit (SerialWrite bs (Some e)) (w\<lparr>io_in := stl (io_in w)\<rparr>))
      | None \<Rightarrow> (Inr (length bs), emit (SerialWrite bs None) (w\<lparr>io_in := stl (io_in w)\<rparr>)))"

definition Serial_flush :: "Serial \<Rightarrow> world \<Rightarrow> (exn + unit) \<times> world" where
  "Serial_flush c w =
     (if \<not> is_open c then (Inl port_not_open, emit (SerialFlush (Some port_not_open)) w)
      else case shd (io_in w) of
        Some e \<Rightarrow> (Inl e, emit (SerialFlush (Some e)) (w\<lparr>io_in := stl (io_in w)\<rparr>))
      | None \<Rightarrow> (Inr (), emit (SerialFlush None) (w\<lparr>io_in := stl (io_in w)\<rparr>)))"

definition Serial_in_waiting :: "Serial \<Rightarrow> world \<Rightarrow> (exn + nat) \<times> world" where
  "Serial_in_waiting c w =
     (if \<not> is_open c then (Inl port_not_open, emit (SerialInWaiting (Some port_not_open)) w)
      else case shd (io_in w) of
        Some e \<Rightarrow> (Inl e, emit (SerialInWaiting (Some e)) (w\<lparr>io_in := stl (io_in w)\<rparr>))
      | None \<Rightarrow> (Inr (length (rx w)), emit (SerialInWaiting None) (w\<lparr>io_in := stl (io_in w)\<rparr>)))"

definition first_line :: "byte list \<Rightarrow> byte list" where
  "first_line bs = takeWhile (\<lambda>b. b \<noteq> LF) bs @ (if LF \<in> set bs then [LF] else [])"

definition Serial_readline :: "Serial \<Rightarrow> world \<Rightarrow> (exn + byte list) \<times> world" where
  "Serial_readline c w =
     (if \<not> is_open c then (Inl port_not_open, emit (SerialReadline [] (Some port_not_open)) w)
      else case shd (io_in w) of
        Some e \<Rightarrow> (Inl e, emit (SerialReadline [] (Some e)) (w\<lparr>io_in := stl (io_in w)\<rparr>))
      | None \<Rightarrow>
          (Inr (first_line (rx w)),
           emit (SerialReadline (first_line (rx w)) None)
             (w\<lparr>io_in := stl (io_in w), rx := drop (length (first_line (rx w))) (rx w)\<rparr>)))"

text \<open>The bytes the transport accepted, in order: what is on the wire.\<close>

fun wire :: "event list \<Rightarrow> byte list" where
  "wire [] = []"
| "wire (SerialWrite bs None # es) = bs @ wire es"
| "wire (e # es) = wire es"

text \<open>The payloads of the calls of \<open>write\<close>, accepted or not.\<close>

fun writes_of :: "event list \<Rightarrow> byte list list" where
  "writes_of [] = []"
| "writes_of (SerialWrite bs r # es) = bs # writes_of es"
| "writes_of (e # es) = writes_of es"

text \<open>The calls that touch the serial port.\<close>

fun is_serial_event :: "event \<Rightarrow> bool" where
  "is_serial_event (SerialOpen p b t r) = True"
| "is_serial_event SerialClose = True"
| "is_serial_event (SerialWrite bs r) = True"
| "is_serial_event (SerialFlush r) = True"
| "is_serial_event (SerialInWaiting r) = True"
| "is_serial_event (SerialReadline bs r) = True"
| "is_serial_event e = False"

section \<open>The peripheral link (serial\_communication.py)\<close>

record SerialCommunication =
  port :: string
  baud :: int
  timeout :: real
  connection :: "Serial option"
  connected :: bool

definition SerialCommunication_init :: "string \<Rightarrow> int \<Rightarrow> real \<Rightarrow> SerialCommunication" where
  "SerialCommunication_init p b t =
     \<lparr>port = p, baud = b, timeout = t, connection = None, connected = False\<rparr>"

definition connect :: "SerialCommunication \<Rightarrow> world \<Rightarrow> bool \<times> SerialCommunication \<times> world" where
  "connect s w =
     (case Serial_open (port s) (baud s) (timeout s) w of
        (Inr c, w1) \<Rightarrow>
          (True, s\<lparr>connection := Some c, connected := True\<rparr>,
           print (''Serial connection established on '' @ port s @ '' at ''
                    @ str_int (baud s) @ '' baud'') w1)
      | (Inl e, w1) \<Rightarrow>
          if is_SerialException e
          then (False, s\<lparr>connected := False\<rparr>,
                print (''Failed to connect to '' @ port s @ '': '' @ exn_str e) w1)
          else (False, s\<lparr>connected := False\<rparr>,
                print (''Unexpected error connecting to serial: '' @ exn_str e) w1))"

definition disconnect :: "SerialCommunication \<Rightarrow> world \<Rightarrow> SerialCommunication \<times> world" where
  "disconnect s w =
     (case connection s of
        None \<Rightarrow> (s, w)
      | Some c \<Rightarrow>
          if is_open c
          then (case Serial_close c w of
                  (c', w1) \<Rightarrow>
                    (s\<lparr>connection := Some c', connected := False\<rparr>,
                     print ''Serial connection closed'' w1))
          else (s, w))"

definition none_has_no_attribute :: "string \<Rightarrow> exn" where
  "none_has_no_attribute a =
     Exn AttributeError
       ([CHR 0x27] @ ''NoneType'' @ [CHR 0x27] @ '' object has no attribute ''
          @ [CHR 0x27] @ a @ [CHR 0x27])"

text \<open>The body of the \<open>try\<close> of \<open>send_data\<close>: what it returns, or what it raises.\<close>

definition send_data_try :: "SerialCommunication \<Rightarrow> pystr \<Rightarrow> world \<Rightarrow> (exn + bool) \<times> world" where
  "send_data_try s data w =
     (let command_with_newline = data @ str [newline] in
      case connection s of
        None \<Rightarrow> (Inl (none_has_no_attribute ''write''), w)
      | Some c \<Rightarrow>
          (case utf8_encode command_with_newline of
             Inl e \<Rightarrow> (Inl e, w)
           | Inr bs \<Rightarrow>
               (case Serial_write c bs w of
                  (Inl e, w1) \<Rightarrow> (Inl e, w1)
                | (Inr n, w1) \<Rightarrow>
                    (case Serial_flush c w1 of
                       (Inl e, w2) \<Rightarrow> (Inl e, w2)
                     | (Inr u, w2) \<Rightarrow> (Inr True, w2)))))"

definition send_data :: "SerialCommunication \<Rightarrow> pystr \<Rightarrow> world \<Rightarrow> bool \<times> world" where
  "send_data s data w =
     (if \<not> connected s \<or> connection s = None
      then (False, print ''No serial connection available'' w)
      else case send_data_try s data w of
             (Inr r, w1) \<Rightarrow> (r, w1)
           | (Inl e, w1) \<Rightarrow> (False, print (''Error sending data: '' @ exn_str e) w1))"

definition send_raw_command :: "SerialCommunication \<Rightarrow> pystr \<Rightarrow> world \<Rightarrow> bool \<times> world" where
  "send_raw_command s command w = send_data s command w"

text \<open>
  \<open>bytes.decode('utf-8')\<close> and \<open>json.loads\<close> belong to Python's library and are
  parameters here: \<open>decode\<close> gives the text or raises, \<open>loads\<close> gives the decoded
  value (None for the JSON text \<open>null\<close>) or raises.
\<close>

definition read_data_try ::
  "(byte list \<Rightarrow> exn + string) \<Rightarrow> (string \<Rightarrow> exn + 'j option) \<Rightarrow>
   SerialCommunication \<Rightarrow> world \<Rightarrow> (exn + 'j option) \<times> world" where
  "read_data_try decode loads s w =
     (case connection s of
        None \<Rightarrow> (Inl (none_has_no_attribute ''in_waiting''), w)
      | Some c \<Rightarrow>
          (case Serial_in_waiting c w of
             (Inl e, w1) \<Rightarrow> (Inl e, w1)
           | (Inr n, w1) \<Rightarrow>
               if n > 0
               then (case Serial_readline c w1 of
                       (Inl e, w2) \<Rightarrow> (Inl e, w2)
                     | (Inr bs, w2) \<Rightarrow>
                         (case decode bs of
                            Inl e \<Rightarrow> (Inl e, w2)
                          | Inr text \<Rightarrow>
                              (let line = strip text in
                               if line \<noteq> []
                               then (case loads line of
                                       Inl e \<Rightarrow> (Inl e, w2)
                                     | Inr v \<Rightarrow> (Inr v, w2))
                               else (Inr None, w2))))
               else (Inr None, w1)))"

definition read_data ::
  "(byte list \<Rightarrow> exn + string) \<Rightarrow> (string \<Rightarrow> exn + 'j option) \<Rightarrow>
   SerialCommunication \<Rightarrow> world \<Rightarrow> 'j option \<times> world" where
  "read_data decode loads s w =
     (if \<not> connected s \<or> connection s = None
      then (None, w)
      else case read_data_try decode loads s w of
             (Inr r, w1) \<Rightarrow> (r, w1)
           | (Inl e, w1) \<Rightarrow> (None, print (''Error reading data: '' @ exn_str e) w1))"

text \<open>
  The world once \<open>in_waiting\<close> and \<open>readline\<close> have both returned: the first
  buffered line has left the receive buffer.
\<close>

definition line_consumed :: "world \<Rightarrow> world" where
  "line_consumed w =
     w\<lparr>trace := trace w @ [SerialInWaiting None, SerialReadline (first_line (rx w)) None],
       io_in := stl (stl (io_in w)),
       rx := drop (length (first_line (rx w))) (rx w)\<rparr>"

text \<open>
  The operations a client of the link can call, and a run of any sequence of them. The
  results of the calls are dropped here: only the state of the link and the world go on.
\<close>

datatype link_op = Connect | Disconnect | SendData pystr | ReadData

fun run_op ::
  "(byte list \<Rightarrow> exn + string) \<Rightarrow> (string \<Rightarrow> exn + 'j option) \<Rightarrow>
   link_op \<Rightarrow> SerialCommunication \<times> world \<Rightarrow> SerialCommunication \<times> world" where
  "run_op decode loads Connect (s, w) = snd (connect s w)"
| "run_op decode loads Disconnect (s, w) = disconnect s w"
| "run_op decode loads (SendData d) (s, w) = (s, snd (send_data s d w))"
| "run_op decode loads ReadData (s, w) = (s, snd (read_data decode loads s w))"

fun run_ops ::
  "(byte list \<Rightarrow> exn + string) \<Rightarrow> (string \<Rightarrow> exn + 'j option) \<Rightarrow>
   link_op list \<Rightarrow> SerialCommunication \<times> world \<Rightarrow> SerialCommunication \<times> world" where
  "run_ops decode loads [] st = st"
| "run_ops decode loads (x # xs) st = run_ops decode loads xs (run_op decode loads x st)"

text \<open>The invariant of the link: a raised \<open>connected\<close> flag comes with a connection.\<close>

definition link_inv :: "SerialCommunication \<Rightarrow> bool" where
  "link_inv s = (connected s \<longrightarrow> connection s \<noteq> None)"

text \<open>The link is up: the flag is raised and the connection is an open port.\<close>

definition link_up :: "SerialCommunication \<Rightarrow> bool" where
  "link_up s = (connected s \<and> (case connection s of None \<Rightarrow> False | Some c \<Rightarrow> is_open c))"

section \<open>The display (slot\_machine\_video.py)\<close>

text \<open>
  The frames are images already loaded; \<open>disp.display(frame)\<close> is taken to be
  infallible. In \<open>play_animation\<close> the division \<open>1.0 / fps\<close> raises when
  \<open>fps\<close> is zero, but only once the empty sequence has returned.
\<close>

record SlotMachineVideo =
  win_frames :: "frame list"
  lose_frames :: "frame list"
  spin_frames :: "frame list"

definition disp_display :: "frame \<Rightarrow> world \<Rightarrow> world" where
  "disp_display f w = emit (Display f) w"

text \<open>The \<open>for\<close> loop of \<open>play_animation\<close>.\<close>

fun play_frames :: "frame list \<Rightarrow> real \<Rightarrow> world \<Rightarrow> world" where
  "play_frames [] frame_delay w = w"
| "play_frames (f # fs) frame_delay w = play_frames fs frame_delay (sleep frame_delay (disp_display f w))"

definition play_animation :: "frame list \<Rightarrow> real \<Rightarrow> world \<Rightarrow> (exn + unit) \<times> world" where
  "play_animation frames fps w =
     (if frames = [] then (Inr (), w)
      else if fps = 0 then (Inl (Exn ZeroDivisionError ''float division by zero''), w)
      else (Inr (), play_frames frames (1 / fps) w))"

definition show_win_animation :: "SlotMachineVideo \<Rightarrow> world \<Rightarrow> (exn + unit) \<times> world" where
  "show_win_animation v w = play_animation (win_frames v) 10 w"

definition show_lose_animation :: "SlotMachineVideo \<Rightarrow> world \<Rightarrow> (exn + unit) \<times> world" where
  "show_lose_animation v w = play_animation (lose_frames v) 10 w"

definition show_spin_animation :: "SlotMachineVideo \<Rightarrow> world \<Rightarrow> (exn + unit) \<times> world" where
  "show_spin_animation v w = play_animation (spin_frames v) 10 w"

text \<open>The events of playing a sequence of frames, each held for the delay.\<close>

definition frame_events :: "frame list \<Rightarrow> real \<Rightarrow> event list" where
  "frame_events fs d = concat (map (\<lambda>f. [Display f, Sleep d]) fs)"

section \<open>The payout draw and the turn (main.py)\<close>

definition GAMBLE_AMT :: int where
  "GAMBLE_AMT = 200"

definition GAMBLE_CHANCES :: "int list" where
  "GAMBLE_CHANCES = [10, 50, 100, 200, 500, 1000, 10000, 100000]"

text \<open>
  A Python float is an IEEE 754 double, modelled as the real number it denotes.
  \<open>double\<close> rounds a real to the nearest double, ties to the even significand: 53
  bits above \<open>2 ^ - 1022\<close> and the fixed spacing \<open>2 ^ - 1074\<close> below. A float
  literal denotes the double of its decimal, and a sum or product of floats the double of
  the exact result. Magnitudes of \<open>2 ^ 1024\<close> and more, which would round to
  infinity, do not arise from the weights and a random value below one.
\<close>

definition pow2 :: "int \<Rightarrow> real" where
  "pow2 e = (if 0 \<le> e then 2 ^ nat e else 1 / 2 ^ nat (- e))"

definition round_even :: "real \<Rightarrow> int" where
  "round_even y =
     (if y - of_int \<lfloor>y\<rfloor> < 1/2 then \<lfloor>y\<rfloor>
      else if 1/2 < y - of_int \<lfloor>y\<rfloor> then \<lfloor>y\<rfloor> + 1
      else if even \<lfloor>y\<rfloor> then \<lfloor>y\<rfloor> else \<lfloor>y\<rfloor> + 1)"

definition exponent :: "real \<Rightarrow> int" where
  "exponent x = max \<lfloor>log 2 \<bar>x\<bar>\<rfloor> (- 1022)"

definition double :: "real \<Rightarrow> real" where
  "double x =
     (if x = 0 then 0
      else of_int (round_even (x / pow2 (exponent x - 52))) * pow2 (exponent x - 52))"

definition GAMBLE_WEIGHTS :: "real list" where
  "GAMBLE_WEIGHTS =
     [double 0.5, 1, double 0.5, double 0.4, double 0.35, double 0.1, double 0.01, double 0.001]"

text \<open>
  \<open>random.random()\<close>: the next value of the random source, a multiple of
  \<open>2 ^ - 53\<close> below one. For such a value the comparison with the literal
  \<open>0.2\<close> of the gate gives the same answer for the double of the literal and for
  the number itself, and the gate is written with the number. The delays handed to
  \<open>asyncio.sleep\<close> are written as the numbers their literals name; nothing is
  computed from them.
\<close>

definition random_random :: "world \<Rightarrow> real \<times> world" where
  "random_random w =
     (shd (rand_in w), emit (Random (shd (rand_in w))) (w\<lparr>rand_in := stl (rand_in w)\<rparr>))"

text \<open>
  \<open>random.choices(population, weights=...)\<close> as CPython computes it, for weights that
  are floats: the running sums of the weights (\<open>itertools.accumulate\<close>), each sum
  rounded; one call of \<open>random()\<close> multiplied by their total, the product rounded; and
  \<open>bisect\<close> of that value in the running sums between 0 and \<open>n - 1\<close>.
\<close>

fun accumulate_from :: "real \<Rightarrow> real list \<Rightarrow> real list" where
  "accumulate_from t [] = []"
| "accumulate_from t (x # xs) = double (t + x) # accumulate_from (double (t + x)) xs"

definition accumulate :: "real list \<Rightarrow> real list" where
  "accumulate xs = (case xs of [] \<Rightarrow> [] | x # ys \<Rightarrow> x # accumulate_from x ys)"

function bisect :: "real list \<Rightarrow> real \<Rightarrow> nat \<Rightarrow> nat \<Rightarrow> exn + nat" where
  "bisect a x lo hi =
     (if lo < hi
      then (if length a \<le> (lo + hi) div 2 then Inl (Exn IndexError ''list index out of range'')
            else if x < a ! ((lo + hi) div 2) then bisect a x lo ((lo + hi) div 2)
            else bisect a x ((lo + hi) div 2 + 1) hi)
      else Inr lo)"
  by pat_completeness auto
termination
  by (relation "measure (\<lambda>(a, x, lo, hi). hi - lo)") auto

declare bisect.simps [simp del]

definition choices :: "'a list \<Rightarrow> real list \<Rightarrow> world \<Rightarrow> (exn + 'a list) \<times> world" where
  "choices population weights w =
     (let n = length population; cum_weights = accumulate weights in
      if length cum_weights \<noteq> n
      then (Inl (Exn ValueError ''The number of weights does not match the population''), w)
      else if cum_weights = [] then (Inl (Exn IndexError ''list index out of range''), w)
      else (let total = double (last cum_weights + 0) in
            if total \<le> 0
            then (Inl (Exn ValueError ''Total of weights must be greater than zero''), w)
            else (case random_random w of
                    (r, w1) \<Rightarrow>
                      (case bisect cum_weights (double (r * total)) 0 (n - 1) of
                         Inl e \<Rightarrow> (Inl e, w1)
                       | Inr i \<Rightarrow>
                           if i < n then (Inr [population ! i], w1)
                           else (Inl (Exn IndexError ''list index out of range''), w1)))))"

definition get_payout :: "world \<Rightarrow> (exn + int) \<times> world" where
  "get_payout w =
     (case choices GAMBLE_CHANCES GAMBLE_WEIGHTS w of
        (Inl e, w1) \<Rightarrow> (Inl e, w1)
      | (Inr [], w1) \<Rightarrow> (Inl (Exn IndexError ''list index out of range''), w1)
      | (Inr (payout # rest), w1) \<Rightarrow> (Inr payout, w1))"

definition spin :: "SlotMachineVideo \<Rightarrow> world \<Rightarrow> (exn + int) \<times> world" where
  "spin v w =
     (case show_spin_animation v w of
        (Inl e, w1) \<Rightarrow> (Inl e, w1)
      | (Inr u, w1) \<Rightarrow>
          (case random_random w1 of
             (rand, w2) \<Rightarrow>
               if rand < 0.2
               then (case show_win_animation v w2 of
                       (Inl e, w3) \<Rightarrow> (Inl e, w3)
                     | (Inr u, w3) \<Rightarrow> get_payout w3)
               else (case show_lose_animation v w2 of
                       (Inl e, w3) \<Rightarrow> (Inl e, w3)
                     | (Inr u, w3) \<Rightarrow> (Inr 0, w3))))"

text \<open>The objects \<open>main.py\<close> creates at module level.\<close>

record globals =
  video_player :: SlotMachineVideo
  serial_comm :: SerialCommunication
  spin_button :: Button

text \<open>
  The body of \<open>if spin_button.was_just_pressed():\<close> in four steps, as the source's
  comments divide it: the wager notice, the spin, the report of the result, the wait.
\<close>

definition send_gamble :: "globals \<Rightarrow> world \<Rightarrow> world" where
  "send_gamble g w =
     print (''Sent: GAMBLE '' @ str_int GAMBLE_AMT)
       (snd (send_data (serial_comm g) (str (''GAMBLE '' @ str_int GAMBLE_AMT))
          (print ''Spin button pressed! Starting spin...'' w)))"

definition send_result :: "globals \<Rightarrow> int \<Rightarrow> world \<Rightarrow> world" where
  "send_result g payout w =
     (if payout > 0
      then print (''Sent: WIN '' @ str_int payout @ '' - Won payout: '' @ str_int payout)
             (snd (send_data (serial_comm g) (str (''WIN '' @ str_int payout)) w))
      else print ''Sent: LOSE - No payout'' (snd (send_data (serial_comm g) (str ''LOSE'') w)))"

text \<open>One pass of the body of \<open>while True\<close>; Some is an exception that leaves the loop.\<close>

definition loop_body :: "globals \<Rightarrow> world \<Rightarrow> exn option \<times> globals \<times> world" where
  "loop_body g w =
     (case was_just_pressed (spin_button g) w of
        (pressed, b, w1) \<Rightarrow>
          if pressed
          then (case spin (video_player g) (send_gamble g w1) of
                  (Inl e, w2) \<Rightarrow> (Some e, g\<lparr>spin_button := b\<rparr>, w2)
                | (Inr payout, w2) \<Rightarrow>
                    (None, g\<lparr>spin_button := b\<rparr>,
                     sleep 0.05 (sleep 1 (send_result g payout w2))))
          else (None, g\<lparr>spin_button := b\<rparr>, sleep 0.05 w1))"

text \<open>
  \<open>handle_button_presses\<close> never returns; with fuel \<open>n\<close> it makes \<open>n\<close> passes, or
  stops at the exception that leaves the loop.
\<close>

fun handle_button_presses :: "nat \<Rightarrow> globals \<Rightarrow> world \<Rightarrow> exn option \<times> globals \<times> world" where
  "handle_button_presses 0 g w = (None, g, w)"
| "handle_button_presses (Suc n) g w =
     (case loop_body g w of
        (Some e, g', w') \<Rightarrow> (Some e, g', w')
      | (None, g', w') \<Rightarrow> handle_button_presses n g' w')"

text \<open>A line of the protocol as bytes.\<close>

definition line :: "string \<Rightarrow> byte list" where
  "line s = encode_utf8 s @ [LF]"

section \<open>Concrete worlds for the worked instances\<close>

text \<open>
  A world in which the pin reads released, pressed, pressed and released from then on,
  the random source always answers a half and the serial library never raises.
\<close>

definition demo_world :: world where
  "demo_world = \<lparr>trace = [], gpio_in = 1 ## 0 ## 0 ## sconst 1,
     rand_in = sconst (1/2), io_in = sconst None, rx = []\<rparr>"

text \<open>The link as \<open>main\<close> has it once \<open>connect\<close> has succeeded, and before.\<close>

definition up_link :: SerialCommunication where
  "up_link = \<lparr>port = ''/dev/ttyACM0'', baud = 115200, timeout = 1,
     connection = Some \<lparr>is_open = True\<rparr>, connected = True\<rparr>"

definition new_link :: SerialCommunication where
  "new_link = SerialCommunication_init ''/dev/ttyACM0'' 115200 1"

text \<open>
  A decoder that agrees with \<open>bytes.decode('utf-8')\<close> on ASCII bytes and rejects the
  rest, and a parser that, like \<open>json.loads\<close>, rejects the empty text and the text
  \<open>oops\<close> and accepts \<open>null\<close>.
\<close>

definition ascii_decode :: "byte list \<Rightarrow> exn + string" where
  "ascii_decode bs =
     (if list_all (\<lambda>b. unat b < 128) bs then Inr (map (\<lambda>b. char_of (unat b)) bs)
      else Inl (Exn UnicodeDecodeError ''invalid start byte''))"

definition toy_loads :: "string \<Rightarrow> exn + unit option" where
  "toy_loads t = (if t = ''null'' then Inr None else Inl (Exn JSONDecodeError ''Expecting value''))"

text \<open>Worlds whose receive buffer holds a blank line, and the line \<open>oops\<close>.\<close>

definition blank_line_world :: world where
  "blank_line_world = demo_world\<lparr>rx := [LF]\<rparr>"

definition bad_line_world :: world where
  "bad_line_world = demo_world\<lparr>rx := [111, 111, 112, 115, LF, 110]\<rparr>"

text \<open>
  A display with one frame in each animation, and a world in which the random source
  answers an eighth, so that the gate opens, and then \<open>511/512\<close>, which falls in the
  interval of the payout 10000. In the third world the second answer is a double whose
  product with the total of the weights lies just below the running sum 2.
\<close>

definition demo_video :: SlotMachineVideo where
  "demo_video = \<lparr>win_frames = [1], lose_frames = [2], spin_frames = [0]\<rparr>"

definition win_world :: world where
  "win_world = demo_world\<lparr>rand_in := 1/8 ## 511/512 ## sconst (1/2)\<rparr>"

definition boundary_world :: world where
  "boundary_world = demo_world\<lparr>rand_in := 1/8 ## 6296539150465566 / 2 ^ 53 ## sconst (1/2)\<rparr>"

text \<open>A display whose directories of frames were all missing.\<close>

definition empty_video :: SlotMachineVideo where
  "empty_video = \<lparr>win_frames = [], lose_frames = [], spin_frames = []\<rparr>"

text \<open>
  The objects of \<open>main.py\<close> once the link is up, and worlds in which the button is
  pressed at the first poll: one whose turn loses, one whose turn wins 10000.
\<close>

definition demo_globals :: globals where
  "demo_globals = \<lparr>video_player = demo_video, serial_comm = up_link, spin_button = Button_init 20\<rparr>"

definition press_world :: world where
  "press_world = demo_world\<lparr>gpio_in := 0 ## sconst 1\<rparr>"

definition press_win_world :: world where
  "press_win_world = win_world\<lparr>gpio_in := 0 ## sconst 1\<rparr>"

section \<open>Properties of the button\<close>

lemma was_just_pressed_eq:
  "was_just_pressed b w =
     (sample_pressed w 0 \<and> \<not> last_state b,
      b\<lparr>last_state := sample_pressed w 0\<rparr>,
      snd (GPIO_input (pin b) w))"
  by (simp add: was_just_pressed_def is_pressed_def GPIO_input_def sample_pressed_def)

lemma sample_pressed_after_read:
  "sample_pressed (snd (GPIO_input p w)) i = sample_pressed w (Suc i)"
  by (simp add: sample_pressed_def emit_def GPIO_input_def)

lemma polls_Suc:
  "polls (Suc n) b w =
     ((sample_pressed w 0 \<and> \<not> last_state b)
        # fst (polls n (b\<lparr>last_state := sample_pressed w 0\<rparr>) (snd (GPIO_input (pin b) w))),
      snd (polls n (b\<lparr>last_state := sample_pressed w 0\<rparr>) (snd (GPIO_input (pin b) w))))"
  by (simp add: was_just_pressed_eq split_beta)

lemma polls_length: "length (fst (polls n b w)) = n"
  by (induction n arbitrary: b w) (simp_all add: polls_Suc del: polls.simps(2))

lemma polls_nth:
  "i < n \<Longrightarrow>
   fst (polls n b w) ! i =
     (sample_pressed w i \<and> \<not> (if i = 0 then last_state b else sample_pressed w (i - 1)))"
proof (induction n arbitrary: b w i)
  case 0
  then show ?case by simp
next
  case (Suc n)
  show ?case
  proof (cases i)
    case 0
    then show ?thesis by (simp add: polls_Suc del: polls.simps(2))
  next
    case (Suc j)
    with Suc.prems have "j < n" by simp
    from Suc.IH [OF this] Suc show ?thesis
      by (cases j) (simp_all add: polls_Suc sample_pressed_after_read del: polls.simps(2))
  qed
qed

lemma polls_button:
  "0 < n \<Longrightarrow> fst (snd (polls n b w)) = \<lparr>pin = pin b, last_state = sample_pressed w (n - 1)\<rparr>"
proof (induction n arbitrary: b w)
  case 0
  then show ?case by simp
next
  case (Suc n)
  show ?case
  proof (cases "n = 0")
    case True
    then show ?thesis by (simp add: was_just_pressed_eq)
  next
    case False
    then have "0 < n" by simp
    from Suc.IH [OF this] False show ?thesis
      by (simp add: polls_Suc sample_pressed_after_read del: polls.simps(2))
  qed
qed

text \<open>
  C1. Over any stream of raw samples, poll \<open>i\<close> answers true exactly when sample
  \<open>i\<close> reads pressed and the sample of the poll before it read not pressed; for the
  first poll the stored \<open>last_state\<close> stands for the poll before, and a new button
  stores False there. When two consecutive samples read pressed, the second poll answers
  false, so a held button reports its edge once.
\<close>

theorem was_just_pressed_rising_edge:
  assumes "i < n"
  shows "fst (polls n b w) ! i =
           (sample_pressed w i \<and>
            \<not> (if i = 0 then last_state b else sample_pressed w (i - 1)))
         \<and> (Suc i < n \<and> sample_pressed w i \<and> sample_pressed w (Suc i)
              \<longrightarrow> \<not> fst (polls n b w) ! Suc i)"
  using assms by (simp add: polls_nth)

theorem was_just_pressed_rising_edge_witness:
  "(1::nat) < 3
   \<and> \<not> sample_pressed demo_world 0 \<and> sample_pressed demo_world 1
   \<and> sample_pressed demo_world 2
   \<and> fst (polls 3 (Button_init 20) demo_world) ! 1
   \<and> \<not> fst (polls 3 (Button_init 20) demo_world) ! 2"
  using was_just_pressed_rising_edge [of 1 3 "Button_init 20" demo_world]
  by (simp add: sample_pressed_def demo_world_def GPIO_LOW_def eval_nat_numeral)

text \<open>
  C9. Every poll stores the current raw reading in \<open>last_state\<close>, whatever it
  answers, and leaves the pin alone; so after any non-empty sequence of polls the button
  is its pin together with the reading of the last poll, and nothing older.
\<close>

theorem was_just_pressed_updates_last_state:
  "last_state (fst (snd (was_just_pressed b w))) = sample_pressed w 0
   \<and> pin (fst (snd (was_just_pressed b w))) = pin b
   \<and> (0 < n \<longrightarrow>
        fst (snd (polls n b w)) = \<lparr>pin = pin b, last_state = sample_pressed w (n - 1)\<rparr>)"
  by (simp add: was_just_pressed_eq polls_button)

theorem was_just_pressed_updates_last_state_witness:
  "(0::nat) < 2
   \<and> fst (snd (polls 2 (Button_init 20) demo_world)) = \<lparr>pin = 20, last_state = True\<rparr>
   \<and> fst (snd (polls 4 (Button_init 20) demo_world)) = \<lparr>pin = 20, last_state = False\<rparr>
   \<and> last_state (fst (snd (was_just_pressed (Button_init 20) demo_world))) = False"
  using was_just_pressed_updates_last_state [of "Button_init 20" demo_world 2]
        was_just_pressed_updates_last_state [of "Button_init 20" demo_world 4]
  by (simp add: sample_pressed_def demo_world_def GPIO_LOW_def Button_init_def eval_nat_numeral)

section \<open>Properties of sending\<close>

lemma utf8_newline: "utf8_bytes (of_char newline) = [LF]"
  by (simp add: utf8_bytes_def newline_def LF_def)

lemma not_surrogate_of_char: "\<not> is_surrogate (of_char c)"
  using nat_of_char_less_256 [of c] unfolding is_surrogate_def by linarith

lemma no_surrogate_str: "\<not> list_ex is_surrogate (str t)"
  by (simp add: str_def list_ex_iff not_surrogate_of_char)

lemma utf8_encode_str: "utf8_encode (str t) = Inr (encode_utf8 t)"
  by (simp add: utf8_encode_def no_surrogate_str)
     (simp add: str_def encode_utf8_def utf8_char_def [abs_def] comp_def)

lemma encode_utf8_line: "encode_utf8 (t @ [newline]) = line t"
  by (simp add: encode_utf8_def utf8_char_def utf8_newline line_def)

lemma utf8_encode_line:
  "utf8_encode data = Inr bs \<Longrightarrow> utf8_encode (data @ str [newline]) = Inr (bs @ [LF])"
  by (auto simp add: utf8_encode_def str_def utf8_newline not_surrogate_of_char
      split: if_splits)

lemma utf8_encode_line_error:
  "list_ex is_surrogate data \<Longrightarrow>
   utf8_encode (data @ str [newline]) = Inl (surrogate_error (data @ str [newline]))"
  by (simp add: utf8_encode_def)

lemma utf8_encode_str_line: "utf8_encode (str t @ str [newline]) = Inr (line t)"
  using utf8_encode_line [OF utf8_encode_str [of t]] by (simp add: line_def)

lemma wire_append: "wire (xs @ ys) = wire xs @ wire ys"
  by (induction xs rule: wire.induct) simp_all

lemma send_data_ok:
  assumes "connected s" "connection s = Some c" "is_open c"
    and "shd (io_in w) = None" "shd (stl (io_in w)) = None"
    and "utf8_encode data = Inr bs"
  shows "send_data s data w =
           (True, w\<lparr>trace := trace w @ [SerialWrite (bs @ [LF]) None, SerialFlush None],
                    io_in := stl (stl (io_in w))\<rparr>)"
  using assms
  by (simp add: send_data_def send_data_try_def Serial_write_def Serial_flush_def emit_def
      utf8_encode_line Let_def)

lemma send_data_str_ok:
  assumes "connected s" "connection s = Some c" "is_open c"
    and "shd (io_in w) = None" "shd (stl (io_in w)) = None"
  shows "send_data s (str t) w =
           (True, w\<lparr>trace := trace w @ [SerialWrite (line t) None, SerialFlush None],
                    io_in := stl (stl (io_in w))\<rparr>)"
  using send_data_ok [OF assms utf8_encode_str [of t]] by (simp add: line_def)

lemma send_data_unencodable:
  assumes "connected s" "connection s = Some c"
    and "list_ex is_surrogate data"
  shows "send_data s data w =
           (False, print (''Error sending data: ''
                            @ exn_str (surrogate_error (data @ str [newline]))) w)"
  using assms
  by (simp add: send_data_def send_data_try_def utf8_encode_line_error Let_def)

text \<open>
  C5, as amended. While the link is connected to an open port and the transport accepts
  the write and the flush: for a text that UTF-8 can encode, \<open>send_data\<close> returns True
  after exactly one \<open>write\<close> of the bytes of the text followed by one line feed, and one
  \<open>flush\<close>, and the wire grows by exactly that line; for a text that holds a surrogate,
  \<open>send_data\<close> prints the error of the encoder and returns False, and no call reaches
  the transport. The instance below puts the bytes of \<open>LOSE\<close> and a line feed on the
  wire.
\<close>

theorem send_data_writes_line:
  assumes "connected s" and "connection s = Some c" and "is_open c"
    and "shd (io_in w) = None" and "shd (stl (io_in w)) = None"
  shows "(utf8_encode data = Inr bs \<longrightarrow>
            fst (send_data s data w)
            \<and> events_since w (snd (send_data s data w)) =
                [SerialWrite (bs @ [LF]) None, SerialFlush None]
            \<and> wire (trace (snd (send_data s data w))) = wire (trace w) @ bs @ [LF])
         \<and> (list_ex is_surrogate data \<longrightarrow>
            send_data s data w =
              (False, print (''Error sending data: ''
                               @ exn_str (surrogate_error (data @ str [newline]))) w))"
proof (intro conjI impI)
  assume enc: "utf8_encode data = Inr bs"
  show "fst (send_data s data w)"
    and "events_since w (snd (send_data s data w)) =
           [SerialWrite (bs @ [LF]) None, SerialFlush None]"
    and "wire (trace (snd (send_data s data w))) = wire (trace w) @ bs @ [LF]"
    by (simp_all add: send_data_ok [OF assms enc] events_since_def wire_append)
next
  assume "list_ex is_surrogate data"
  with assms(1,2) show "send_data s data w =
      (False, print (''Error sending data: ''
                       @ exn_str (surrogate_error (data @ str [newline]))) w)"
    by (rule send_data_unencodable)
qed

lemma surrogate_error_lone:
  "exn_str (surrogate_error ([0xD800] @ str [newline]))
     = [CHR 0x27] @ ''utf-8'' @ [CHR 0x27] @ '' codec can'' @ [CHR 0x27]
       @ ''t encode character '' @ [CHR 0x27, CHR 0x5C] @ ''ud800'' @ [CHR 0x27]
       @ '' in position 0: surrogates not allowed''"
  by (simp add: surrogate_error_def is_surrogate_def str_def newline_def quoted_def hex4_def
      hex_char_def str_int_def digit_char_def Let_def)

theorem send_data_writes_line_witness:
  "connected up_link \<and> connection up_link = Some \<lparr>is_open = True\<rparr>
   \<and> shd (io_in demo_world) = None \<and> shd (stl (io_in demo_world)) = None
   \<and> utf8_encode (str ''LOSE'') = Inr [76, 79, 83, 69]
   \<and> fst (send_data up_link (str ''LOSE'') demo_world)
   \<and> wire (trace (snd (send_data up_link (str ''LOSE'') demo_world))) = [76, 79, 83, 69, 10]
   \<and> list_ex is_surrogate [0xDC00, 0x41]
   \<and> fst (send_data up_link [0xDC00, 0x41] demo_world) = False"
proof -
  have up: "connected up_link" "connection up_link = Some \<lparr>is_open = True\<rparr>"
    "is_open \<lparr>is_open = True\<rparr>"
    by (simp_all add: up_link_def)
  have io: "shd (io_in demo_world) = None" "shd (stl (io_in demo_world)) = None"
    and tr: "wire (trace demo_world) = []"
    by (simp_all add: demo_world_def)
  have enc: "utf8_encode (str ''LOSE'') = Inr [76, 79, 83, 69]"
    by (simp add: utf8_encode_str) (simp add: encode_utf8_def utf8_char_def utf8_bytes_def)
  have sur: "list_ex is_surrogate [0xDC00, 0x41]"
    by (simp add: is_surrogate_def)
  from send_data_writes_line [OF up io, of "str ''LOSE''" "[76, 79, 83, 69]"] enc tr
  have a: "fst (send_data up_link (str ''LOSE'') demo_world)"
    and b: "wire (trace (snd (send_data up_link (str ''LOSE'') demo_world)))
              = [76, 79, 83, 69, 10]"
    by (simp_all add: LF_def)
  from send_data_writes_line [OF up io, of "[0xDC00, 0x41]" "[]"] sur
  have "send_data up_link [0xDC00, 0x41] demo_world
          = (False, print (''Error sending data: ''
               @ exn_str (surrogate_error ([0xDC00, 0x41] @ str [newline]))) demo_world)"
    by blast
  then have c: "fst (send_data up_link [0xDC00, 0x41] demo_world) = False"
    by simp
  from up(1,2) io enc a b sur c show ?thesis by blast
qed

text \<open>
  C5, as stated, fails on a text that holds a lone surrogate: \<open>encode\<close> raises inside
  the \<open>try\<close>, so \<open>send_data\<close> prints the error, returns False and writes nothing,
  although the link is connected and the transport would accept every call.
\<close>

theorem send_data_lone_surrogate:
  "send_data up_link [0xD800] demo_world
     = (False,
        demo_world\<lparr>trace :=
          [Print (''Error sending data: '' @ [CHR 0x27] @ ''utf-8'' @ [CHR 0x27]
                  @ '' codec can'' @ [CHR 0x27] @ ''t encode character ''
                  @ [CHR 0x27, CHR 0x5C] @ ''ud800'' @ [CHR 0x27]
                  @ '' in position 0: surrogates not allowed'')]\<rparr>)
   \<and> wire (trace (snd (send_data up_link [0xD800] demo_world))) = []
   \<and> writes_of (trace (snd (send_data up_link [0xD800] demo_world))) = []"
proof -
  have up: "connected up_link" "connection up_link = Some \<lparr>is_open = True\<rparr>"
    by (simp_all add: up_link_def)
  have sur: "list_ex is_surrogate [0xD800]"
    by (simp add: is_surrogate_def)
  have "send_data up_link [0xD800] demo_world
          = (False, print (''Error sending data: ''
                             @ exn_str (surrogate_error ([0xD800] @ str [newline]))) demo_world)"
    using up sur by (rule send_data_unencodable)
  then show ?thesis
    by (simp only: surrogate_error_lone) (simp add: print_def emit_def demo_world_def)
qed

text \<open>
  C6. While the flag \<open>connected\<close> is down or there is no connection,
  \<open>send_data\<close> returns False after printing that no connection is available, and
  that print is all it does: no call reaches the serial port, nothing is taken from the
  transport's outcomes and the receive buffer is as it was.
\<close>

theorem send_data_not_connected:
  assumes "\<not> connected s \<or> connection s = None"
  shows "send_data s data w = (False, print ''No serial connection available'' w)
         \<and> events_since w (snd (send_data s data w)) = [Print ''No serial connection available'']
         \<and> filter is_serial_event (events_since w (snd (send_data s data w))) = []
         \<and> io_in (snd (send_data s data w)) = io_in w
         \<and> rx (snd (send_data s data w)) = rx w"
  using assms by (auto simp add: send_data_def print_def emit_def events_since_def)

theorem send_data_not_connected_witness:
  "\<not> connected new_link
   \<and> connection new_link = None
   \<and> send_data new_link (str ''LOSE'') demo_world
       = (False, demo_world\<lparr>trace := [Print ''No serial connection available'']\<rparr>)
   \<and> wire (trace (snd (send_data new_link (str ''LOSE'') demo_world))) = []"
  using send_data_not_connected [of new_link "str ''LOSE''" demo_world]
  by (simp add: new_link_def SerialCommunication_init_def demo_world_def print_def emit_def)

section \<open>The invariant of the link\<close>

lemma link_inv_init: "link_inv (SerialCommunication_init p b t)"
  by (simp add: link_inv_def SerialCommunication_init_def)

lemma link_inv_connect: "link_inv (fst (snd (connect s w)))"
  by (simp add: link_inv_def connect_def Serial_open_def split: option.splits)

lemma link_inv_disconnect: "link_inv s \<Longrightarrow> link_inv (fst (disconnect s w))"
  by (auto simp add: link_inv_def disconnect_def Serial_close_def split: option.splits)

lemma link_inv_run_op: "link_inv (fst st) \<Longrightarrow> link_inv (fst (run_op decode loads x st))"
  by (cases x; cases st) (simp_all add: link_inv_connect link_inv_disconnect)

lemma link_inv_run_ops: "link_inv (fst st) \<Longrightarrow> link_inv (fst (run_ops decode loads xs st))"
  by (induction xs arbitrary: st) (simp_all add: link_inv_run_op)

lemma send_data_guard:
  "\<not> connected s \<or> connection s = None \<Longrightarrow>
   send_data s d w = (False, print ''No serial connection available'' w)"
  by (auto simp add: send_data_def)

lemma read_data_guard:
  "\<not> connected s \<or> connection s = None \<Longrightarrow> read_data decode loads s w = (None, w)"
  by (auto simp add: read_data_def)

text \<open>
  C10. The invariant holds at the start and every operation keeps it, so it holds after
  any sequence of \<open>connect\<close>, \<open>disconnect\<close>, \<open>send_data\<close> and
  \<open>read_data\<close>, whatever the world answers. In every state so reached, a raised flag
  comes with a connection, and with the flag down \<open>send_data\<close> returns False and
  \<open>read_data\<close> returns None from their guards, the connection untouched.
\<close>

theorem link_invariant:
  "link_inv (SerialCommunication_init p b t)
   \<and> (link_inv s \<longrightarrow> link_inv (fst (run_op decode loads x (s, w))))
   \<and> link_inv (fst (run_ops decode loads xs (SerialCommunication_init p b t, w)))
   \<and> (connected (fst (run_ops decode loads xs (SerialCommunication_init p b t, w)))
        \<longrightarrow> connection (fst (run_ops decode loads xs (SerialCommunication_init p b t, w))) \<noteq> None)
   \<and> (\<not> connected (fst (run_ops decode loads xs (SerialCommunication_init p b t, w)))
        \<longrightarrow> send_data (fst (run_ops decode loads xs (SerialCommunication_init p b t, w))) d w'
              = (False, print ''No serial connection available'' w')
          \<and> read_data decode loads
                (fst (run_ops decode loads xs (SerialCommunication_init p b t, w))) w'
              = (None, w'))"
proof -
  let ?s = "fst (run_ops decode loads xs (SerialCommunication_init p b t, w))"
  have inv: "link_inv ?s"
    by (rule link_inv_run_ops) (simp add: link_inv_init)
  have step: "link_inv s \<longrightarrow> link_inv (fst (run_op decode loads x (s, w)))"
    using link_inv_run_op [of "(s, w)" decode loads x] by simp
  from inv have pres: "connected ?s \<longrightarrow> connection ?s \<noteq> None"
    by (simp add: link_inv_def)
  show ?thesis
    using inv step pres link_inv_init [of p b t]
      send_data_guard [of ?s d w'] read_data_guard [of ?s decode loads w']
    by blast
qed

theorem link_invariant_witness:
  "link_inv new_link
   \<and> connected (fst (run_ops ascii_decode toy_loads [Connect, SendData (str ''LOSE'')] (new_link, demo_world)))
   \<and> connection (fst (run_ops ascii_decode toy_loads [Connect, SendData (str ''LOSE'')] (new_link, demo_world)))
       = Some \<lparr>is_open = True\<rparr>
   \<and> \<not> connected (fst (run_ops ascii_decode toy_loads [] (new_link, demo_world)))
   \<and> send_data (fst (run_ops ascii_decode toy_loads [] (new_link, demo_world))) (str ''LOSE'') demo_world
       = (False, print ''No serial connection available'' demo_world)
   \<and> read_data ascii_decode toy_loads
        (fst (run_ops ascii_decode toy_loads [] (new_link, demo_world))) demo_world
       = (None, demo_world)"
  using link_invariant [of "''/dev/ttyACM0''" 115200 1 new_link ascii_decode toy_loads Connect
      demo_world "[Connect, SendData (str ''LOSE'')]" "str ''LOSE''" demo_world]
    link_invariant [of "''/dev/ttyACM0''" 115200 1 new_link ascii_decode toy_loads Connect
      demo_world "[]" "str ''LOSE''" demo_world]
  by (simp add: new_link_def SerialCommunication_init_def demo_world_def connect_def
      Serial_open_def emit_def print_def)

section \<open>Properties of reading\<close>

lemma read_data_try_line:
  assumes "connection s = Some c" and "is_open c"
    and "shd (io_in w) = None" and "shd (stl (io_in w)) = None"
    and "rx w \<noteq> []"
  shows "read_data_try decode loads s w =
           (case decode (first_line (rx w)) of
              Inl e \<Rightarrow> (Inl e, line_consumed w)
            | Inr text \<Rightarrow>
                if strip text \<noteq> []
                then (case loads (strip text) of
                        Inl e \<Rightarrow> (Inl e, line_consumed w)
                      | Inr v \<Rightarrow> (Inr v, line_consumed w))
                else (Inr None, line_consumed w))"
  using assms
  by (simp add: read_data_try_def Serial_in_waiting_def Serial_readline_def emit_def
      line_consumed_def Let_def split: sum.splits)

text \<open>
  C7, as amended. With the link up, a line buffered and the transport's calls not raising:
  when the line does not decode, or is not blank once stripped and the parser rejects it,
  \<open>read_data\<close> returns None after printing a diagnostic; when the line is blank once
  stripped, \<open>read_data\<close> returns None and prints nothing. Either way the line has left
  the receive buffer, so no later call reads it again.
\<close>

theorem read_data_malformed_line:
  assumes "connected s" and "connection s = Some c" and "is_open c"
    and "shd (io_in w) = None" and "shd (stl (io_in w)) = None"
    and "rx w \<noteq> []"
  shows "(decode (first_line (rx w)) = Inl e
           \<or> (\<exists>text. decode (first_line (rx w)) = Inr text \<and> strip text \<noteq> []
                 \<and> loads (strip text) = Inl e)
          \<longrightarrow> read_data decode loads s w
                = (None, print (''Error reading data: '' @ exn_str e) (line_consumed w)))
         \<and> ((\<exists>text. decode (first_line (rx w)) = Inr text \<and> strip text = [])
          \<longrightarrow> read_data decode loads s w = (None, line_consumed w))
         \<and> rx (line_consumed w) = drop (length (first_line (rx w))) (rx w)"
  using assms(1,2)
  by (auto simp add: read_data_def read_data_try_line [OF assms(2-6)] line_consumed_def)

lemma char_of_LF: "char_of (unat LF) = newline"
  by (simp add: LF_def newline_def char_of_def bit_0 bit_Suc)

lemma first_line_bad: "first_line (rx bad_line_world) = [111, 111, 112, 115, LF]"
  by (simp add: bad_line_world_def first_line_def LF_def)

lemma decode_bad:
  "ascii_decode [111, 111, 112, 115, LF] = Inr [CHR ''o'', CHR ''o'', CHR ''p'', CHR ''s'', newline]"
  by (simp add: ascii_decode_def LF_def newline_def char_of_def  bit_0 bit_Suc)

lemma strip_bad: "strip [CHR ''o'', CHR ''o'', CHR ''p'', CHR ''s'', newline] = ''oops''"
  by (simp add: strip_def is_space_def newline_def)

lemma first_line_blank: "first_line (rx blank_line_world) = [LF]"
  by (simp add: blank_line_world_def first_line_def)

lemma decode_blank: "ascii_decode [LF] = Inr [newline]"
  by (simp add: ascii_decode_def char_of_LF) (simp add: LF_def)

lemma strip_blank: "strip [newline] = []"
  by (simp add: strip_def is_space_def newline_def)

theorem read_data_malformed_line_witness:
  "connected up_link \<and> rx bad_line_world \<noteq> [] \<and> rx blank_line_world \<noteq> []
   \<and> toy_loads ''oops'' = Inl (Exn JSONDecodeError ''Expecting value'')
   \<and> read_data ascii_decode toy_loads up_link bad_line_world
       = (None, demo_world\<lparr>trace := [SerialInWaiting None,
                                      SerialReadline [111, 111, 112, 115, 10] None,
                                      Print ''Error reading data: Expecting value''],
                           rx := [110]\<rparr>)
   \<and> ascii_decode (first_line (rx blank_line_world)) = Inr [newline]
   \<and> strip [newline] = []
   \<and> read_data ascii_decode toy_loads up_link blank_line_world
       = (None, line_consumed blank_line_world)"
proof -
  have up: "connected up_link" "connection up_link = Some \<lparr>is_open = True\<rparr>"
    by (simp_all add: up_link_def)
  have io: "shd (io_in bad_line_world) = None" "shd (stl (io_in bad_line_world)) = None"
    "rx bad_line_world \<noteq> []"
    by (simp_all add: bad_line_world_def demo_world_def)
  have io': "shd (io_in blank_line_world) = None" "shd (stl (io_in blank_line_world)) = None"
    "rx blank_line_world \<noteq> []"
    by (simp_all add: blank_line_world_def demo_world_def)
  have bad: "toy_loads ''oops'' = Inl (Exn JSONDecodeError ''Expecting value'')"
    by (simp add: toy_loads_def)
  have after: "print (''Error reading data: '' @ exn_str (Exn JSONDecodeError ''Expecting value''))
                 (line_consumed bad_line_world)
               = demo_world\<lparr>trace := [SerialInWaiting None,
                                      SerialReadline [111, 111, 112, 115, 10] None,
                                      Print ''Error reading data: Expecting value''],
                           rx := [110]\<rparr>"
    by (simp add: line_consumed_def first_line_bad print_def emit_def)
       (simp add: bad_line_world_def demo_world_def LF_def)
  from read_data_malformed_line [of up_link "\<lparr>is_open = True\<rparr>" bad_line_world
      ascii_decode "Exn JSONDecodeError ''Expecting value''" toy_loads]
    read_data_malformed_line [of up_link "\<lparr>is_open = True\<rparr>" blank_line_world
      ascii_decode "Exn JSONDecodeError ''Expecting value''" toy_loads]
    up io io' bad after
  show ?thesis
    by (simp add: first_line_bad decode_bad strip_bad first_line_blank decode_blank strip_blank)
qed

text \<open>
  C7, as stated, fails on a blank line: the parser rejects the empty text, yet
  \<open>read_data\<close> returns None with no diagnostic in the trace, for the guard
  \<open>if line:\<close> returns before the parser is called.
\<close>

theorem read_data_blank_line_silent:
  "ascii_decode (first_line (rx blank_line_world)) = Inr [newline]
   \<and> toy_loads (strip [newline]) = Inl (Exn JSONDecodeError ''Expecting value'')
   \<and> fst (read_data ascii_decode toy_loads up_link blank_line_world) = None
   \<and> trace (snd (read_data ascii_decode toy_loads up_link blank_line_world))
       = [SerialInWaiting None, SerialReadline [10] None]"
proof -
  note fl = first_line_blank and dec = decode_blank and st = strip_blank
  have lo: "toy_loads [] = Inl (Exn JSONDecodeError ''Expecting value'')"
    by (simp add: toy_loads_def)
  have up: "connected up_link" "connection up_link = Some \<lparr>is_open = True\<rparr>"
    by (simp_all add: up_link_def)
  have io: "shd (io_in blank_line_world) = None" "shd (stl (io_in blank_line_world)) = None"
    "rx blank_line_world \<noteq> []"
    by (simp_all add: blank_line_world_def demo_world_def)
  have "read_data_try ascii_decode toy_loads up_link blank_line_world
          = (Inr None, line_consumed blank_line_world)"
    using read_data_try_line [of up_link "\<lparr>is_open = True\<rparr>" blank_line_world
        ascii_decode toy_loads] up io
    by (simp add: fl dec st)
  then have rd: "read_data ascii_decode toy_loads up_link blank_line_world
              = (None, line_consumed blank_line_world)"
    using up by (simp add: read_data_def)
  have tr: "trace (line_consumed blank_line_world)
              = [SerialInWaiting None, SerialReadline [LF] None]"
    by (simp add: line_consumed_def fl) (simp add: blank_line_world_def demo_world_def)
  show ?thesis
    by (simp add: fl dec st lo rd tr) (simp add: LF_def)
qed

section \<open>Properties of the animations and of the spin\<close>

lemma play_frames_trace:
  "play_frames fs d w = w\<lparr>trace := trace w @ frame_events fs d\<rparr>"
  by (induction fs arbitrary: w)
     (simp_all add: frame_events_def sleep_def disp_display_def emit_def)

lemma play_animation_10:
  "play_animation fs 10 w = (Inr (), w\<lparr>trace := trace w @ frame_events fs (1/10)\<rparr>)"
  by (simp add: play_animation_def play_frames_trace frame_events_def)

text \<open>
  Doubles are evaluated through the binade of the argument: between \<open>pow2 k\<close> and
  \<open>pow2 (k + 1)\<close> the spacing is \<open>pow2 (k - 52)\<close>. The running sums of the
  weights come out as CPython computes them, the last one below 2.861.
\<close>

lemma pow2_pos: "0 < pow2 k"
  by (simp add: pow2_def)

lemma pow2_powr: "pow2 k = 2 powr (of_int k)"
  by (simp add: pow2_def powr_real_of_int field_simps)

lemma exponent_eq:
  assumes "pow2 k \<le> \<bar>x\<bar>" and "\<bar>x\<bar> < pow2 (k + 1)" and "- 1022 \<le> k"
  shows "exponent x = k"
proof -
  have pos: "0 < \<bar>x\<bar>"
    using assms(1) pow2_pos [of k] by linarith
  have "\<lfloor>log 2 \<bar>x\<bar>\<rfloor> = k"
    using assms(1,2) pos by (simp add: floor_log_eq_powr_iff pow2_powr)
  with assms(3) show ?thesis
    by (simp add: exponent_def)
qed

lemma double_eq:
  assumes "pow2 k \<le> \<bar>x\<bar>" and "\<bar>x\<bar> < pow2 (k + 1)" and "- 1022 \<le> k"
  shows "double x = of_int (round_even (x / pow2 (k - 52))) * pow2 (k - 52)"
proof -
  from assms(1) pow2_pos [of k] have "x \<noteq> 0"
    by auto
  with exponent_eq [OF assms] show ?thesis
    by (simp add: double_def)
qed

lemma double_literals:
  "double 0.5 = 1/2"
  "double 0.4 = 3602879701896397/9007199254740992"
  "double 0.35 = 3152519739159347/9007199254740992"
  "double 0.1 = 3602879701896397/36028797018963968"
  "double 0.01 = 5764607523034235/576460752303423488"
  "double 0.001 = 1152921504606847/1152921504606846976"
proof -
  show "double 0.5 = 1/2"
    by (subst double_eq [of "-1"]) (simp_all add: pow2_def round_even_def)
  show "double 0.4 = 3602879701896397/9007199254740992"
    by (subst double_eq [of "-2"]) (simp_all add: pow2_def round_even_def)
  show "double 0.35 = 3152519739159347/9007199254740992"
    by (subst double_eq [of "-2"]) (simp_all add: pow2_def round_even_def)
  show "double 0.1 = 3602879701896397/36028797018963968"
    by (subst double_eq [of "-4"]) (simp_all add: pow2_def round_even_def)
  show "double 0.01 = 5764607523034235/576460752303423488"
    by (subst double_eq [of "-7"]) (simp_all add: pow2_def round_even_def)
  show "double 0.001 = 1152921504606847/1152921504606846976"
    by (subst double_eq [of "-10"]) (simp_all add: pow2_def round_even_def)
qed

lemma double_sums:
  "double (1/2 + 1) = 3/2"
  "double (3/2 + 1/2) = 2"
  "double (2 + 3602879701896397/9007199254740992) = 5404319552844595/2251799813685248"
  "double (5404319552844595/2251799813685248 + 3152519739159347/9007199254740992) = 11/4"
  "double (11/4 + 3602879701896397/36028797018963968) = 6417629469002957/2251799813685248"
  "double (6417629469002957/2251799813685248 + 5764607523034235/576460752303423488)
     = 6440147467139809/2251799813685248"
  "double (6440147467139809/2251799813685248 + 1152921504606847/1152921504606846976)
     = 3221199633476747/1125899906842624"
  "double (3221199633476747/1125899906842624 + 0) = 3221199633476747/1125899906842624"
proof -
  show "double (1/2 + 1) = 3/2"
    by (subst double_eq [of 0]) (simp_all add: pow2_def round_even_def)
  show "double (3/2 + 1/2) = 2"
    by (subst double_eq [of 1]) (simp_all add: pow2_def round_even_def)
  show "double (2 + 3602879701896397/9007199254740992) = 5404319552844595/2251799813685248"
    by (subst double_eq [of 1]) (simp_all add: pow2_def round_even_def)
  show "double (5404319552844595/2251799813685248 + 3152519739159347/9007199254740992) = 11/4"
    by (subst double_eq [of 1]) (simp_all add: pow2_def round_even_def)
  show "double (11/4 + 3602879701896397/36028797018963968) = 6417629469002957/2251799813685248"
    by (subst double_eq [of 1]) (simp_all add: pow2_def round_even_def)
  show "double (6417629469002957/2251799813685248 + 5764607523034235/576460752303423488)
     = 6440147467139809/2251799813685248"
    by (subst double_eq [of 1]) (simp_all add: pow2_def round_even_def)
  show "double (6440147467139809/2251799813685248 + 1152921504606847/1152921504606846976)
     = 3221199633476747/1125899906842624"
    by (subst double_eq [of 1]) (simp_all add: pow2_def round_even_def)
  show "double (3221199633476747/1125899906842624 + 0) = 3221199633476747/1125899906842624"
    by (subst double_eq [of 1]) (simp_all add: pow2_def round_even_def)
qed

lemma accumulate_weights:
  "accumulate GAMBLE_WEIGHTS =
     [1/2, 3/2, 2, 5404319552844595/2251799813685248, 11/4,
      6417629469002957/2251799813685248, 6440147467139809/2251799813685248,
      3221199633476747/1125899906842624]"
  by (simp only: accumulate_def GAMBLE_WEIGHTS_def double_literals list.case
      accumulate_from.simps double_sums)

text \<open>
  C8. Playing an empty sequence of frames returns at once, whatever the frame rate, zero
  included: the world is as it was, so the trace has gained no frame on the display and no
  delay; and so for each of the three animations when its sequence is empty.
\<close>

theorem play_animation_empty:
  "play_animation [] fps w = (Inr (), w)
   \<and> events_since w (snd (play_animation [] fps w)) = []
   \<and> (win_frames v = [] \<longrightarrow> show_win_animation v w = (Inr (), w))
   \<and> (lose_frames v = [] \<longrightarrow> show_lose_animation v w = (Inr (), w))
   \<and> (spin_frames v = [] \<longrightarrow> show_spin_animation v w = (Inr (), w))"
  by (simp add: play_animation_def events_since_def show_win_animation_def
      show_lose_animation_def show_spin_animation_def)

theorem play_animation_empty_witness:
  "win_frames empty_video = [] \<and> lose_frames empty_video = [] \<and> spin_frames empty_video = []
   \<and> play_animation [] 0 demo_world = (Inr (), demo_world)
   \<and> show_win_animation empty_video demo_world = (Inr (), demo_world)
   \<and> show_lose_animation empty_video demo_world = (Inr (), demo_world)
   \<and> show_spin_animation empty_video demo_world = (Inr (), demo_world)
   \<and> trace (snd (show_spin_animation empty_video demo_world)) = []"
  using play_animation_empty [of 0 demo_world empty_video]
  by (simp add: empty_video_def demo_world_def)

lemma total_weights:
  "last (accumulate GAMBLE_WEIGHTS) = 3221199633476747/1125899906842624"
  by (simp add: accumulate_weights)

lemma sorted_weights: "sorted (accumulate GAMBLE_WEIGHTS)"
  by (simp add: accumulate_weights)

lemma bisect_spec:
  assumes "sorted a" and "lo \<le> hi" and "hi < length a"
  shows "\<exists>i. bisect a x lo hi = Inr i \<and> lo \<le> i \<and> i \<le> hi
           \<and> (\<forall>j. lo \<le> j \<and> j < i \<longrightarrow> a ! j \<le> x)
           \<and> (\<forall>j. i \<le> j \<and> j < hi \<longrightarrow> x < a ! j)"
  using assms
proof (induction a x lo hi rule: bisect.induct)
  case (1 a x lo hi)
  show ?case
  proof (cases "lo < hi")
    case False
    then have "bisect a x lo hi = Inr lo" by (subst bisect.simps) simp
    with "1.prems" False show ?thesis by simp
  next
    case True
    let ?mid = "(lo + hi) div 2"
    from True "1.prems" have mid: "lo \<le> ?mid" "?mid < hi" "\<not> length a \<le> ?mid" by auto
    show ?thesis
    proof (cases "x < a ! ?mid")
      case left: True
      from "1.IH"(1) [OF True mid(3) left "1.prems"(1)] mid "1.prems"
      obtain i where i: "bisect a x lo ?mid = Inr i" "lo \<le> i" "i \<le> ?mid"
        "\<forall>j. lo \<le> j \<and> j < i \<longrightarrow> a ! j \<le> x" "\<forall>j. i \<le> j \<and> j < ?mid \<longrightarrow> x < a ! j"
        by auto
      have eq: "bisect a x lo hi = bisect a x lo ?mid"
        using True mid left by (subst bisect.simps) simp
      have "x < a ! j" if "i \<le> j" "j < hi" for j
      proof (cases "j < ?mid")
        case True
        with i(5) that show ?thesis by simp
      next
        case False
        then have "a ! ?mid \<le> a ! j"
          using "1.prems"(1,3) that by (intro sorted_nth_mono) auto
        with left show ?thesis by simp
      qed
      with eq i mid show ?thesis by auto
    next
      case right: False
      from "1.IH"(2) [OF True mid(3) right "1.prems"(1)] mid "1.prems"
      obtain i where i: "bisect a x (?mid + 1) hi = Inr i" "?mid + 1 \<le> i" "i \<le> hi"
        "\<forall>j. ?mid + 1 \<le> j \<and> j < i \<longrightarrow> a ! j \<le> x" "\<forall>j. i \<le> j \<and> j < hi \<longrightarrow> x < a ! j"
        by auto
      have eq: "bisect a x lo hi = bisect a x (?mid + 1) hi"
        using True mid right by (subst bisect.simps) simp
      have "a ! j \<le> x" if "lo \<le> j" "j < i" for j
      proof (cases "?mid + 1 \<le> j")
        case True
        with i(4) that show ?thesis by simp
      next
        case False
        then have "a ! j \<le> a ! ?mid"
          using "1.prems"(1) mid(3) by (intro sorted_nth_mono) auto
        with right show ?thesis by simp
      qed
      with eq i mid show ?thesis by auto
    qed
  qed
qed

lemma get_payout_index:
  assumes "bisect (accumulate GAMBLE_WEIGHTS)
             (double (shd (rand_in w) * last (accumulate GAMBLE_WEIGHTS))) 0 7 = Inr i"
    and "i \<le> 7"
  shows "get_payout w = (Inr (GAMBLE_CHANCES ! i), snd (random_random w))"
proof -
  let ?cum = "accumulate GAMBLE_WEIGHTS"
  have len: "length ?cum = 8" and ne: "?cum \<noteq> []"
    by (simp_all add: accumulate_weights)
  have tot: "double (last ?cum) = last ?cum"
    using double_sums(8) by (simp add: total_weights)
  have pos: "\<not> last ?cum \<le> 0"
    by (simp add: total_weights)
  have n: "length GAMBLE_CHANCES = 8" by (simp add: GAMBLE_CHANCES_def)
  from assms have "choices GAMBLE_CHANCES GAMBLE_WEIGHTS w
               = (Inr [GAMBLE_CHANCES ! i], snd (random_random w))"
    by (simp add: choices_def Let_def len ne tot pos n random_random_def)
  then show ?thesis by (simp add: get_payout_def)
qed

lemma get_payout_draw:
  "\<exists>i\<le>7. get_payout w = (Inr (GAMBLE_CHANCES ! i), snd (random_random w))
         \<and> (\<forall>j<i. accumulate GAMBLE_WEIGHTS ! j
                      \<le> double (shd (rand_in w) * last (accumulate GAMBLE_WEIGHTS)))
         \<and> (\<forall>j. i \<le> j \<and> j < 7 \<longrightarrow>
                double (shd (rand_in w) * last (accumulate GAMBLE_WEIGHTS))
                  < accumulate GAMBLE_WEIGHTS ! j)"
proof -
  let ?x = "double (shd (rand_in w) * last (accumulate GAMBLE_WEIGHTS))"
  have "7 < length (accumulate GAMBLE_WEIGHTS)"
    by (simp add: accumulate_weights)
  from bisect_spec [OF sorted_weights _ this, of 0 ?x]
  obtain i where i: "bisect (accumulate GAMBLE_WEIGHTS) ?x 0 7 = Inr i" "i \<le> 7"
    "\<forall>j. 0 \<le> j \<and> j < i \<longrightarrow> accumulate GAMBLE_WEIGHTS ! j \<le> ?x"
    "\<forall>j. i \<le> j \<and> j < 7 \<longrightarrow> ?x < accumulate GAMBLE_WEIGHTS ! j"
    by auto
  from get_payout_index [OF i(1,2)] i(2,3,4) show ?thesis by auto
qed

lemma gamble_chances_positive: "p \<in> set GAMBLE_CHANCES \<Longrightarrow> 0 < p"
  by (auto simp add: GAMBLE_CHANCES_def)

lemma gamble_chances_nth: "i \<le> 7 \<Longrightarrow> GAMBLE_CHANCES ! i \<in> set GAMBLE_CHANCES"
  by (rule nth_mem) (simp add: GAMBLE_CHANCES_def)

lemma get_payout_returns:
  "\<exists>p \<in> set GAMBLE_CHANCES. get_payout w = (Inr p, snd (random_random w))"
  using get_payout_draw [of w] gamble_chances_nth by blast

lemma spin_loss:
  "\<not> shd (rand_in w) < 0.2 \<Longrightarrow>
   spin v w = (Inr 0, w\<lparr>trace := trace w @ frame_events (spin_frames v) (1/10)
                                  @ [Random (shd (rand_in w))]
                                  @ frame_events (lose_frames v) (1/10),
                        rand_in := stl (rand_in w)\<rparr>)"
  by (simp add: spin_def show_spin_animation_def show_lose_animation_def play_animation_10
      random_random_def emit_def)

lemma spin_win_eq:
  "shd (rand_in w) < 0.2 \<Longrightarrow>
   spin v w = get_payout (w\<lparr>rand_in := stl (rand_in w),
                            trace := trace w @ frame_events (spin_frames v) (1/10)
                                       @ [Random (shd (rand_in w))]
                                       @ frame_events (win_frames v) (1/10)\<rparr>)"
  by (simp add: spin_def show_spin_animation_def show_win_animation_def play_animation_10
      random_random_def emit_def)

lemma after_payout_draw:
  "snd (random_random (w\<lparr>rand_in := stl (rand_in w), trace := trace w @ es\<rparr>))
     = w\<lparr>trace := trace w @ es @ [Random (shd (stl (rand_in w)))],
         rand_in := stl (stl (rand_in w))\<rparr>"
  by (simp add: random_random_def emit_def)

lemma spin_win_draw:
  assumes "shd (rand_in w) < 0.2"
  shows "\<exists>i\<le>7.
     spin v w = (Inr (GAMBLE_CHANCES ! i),
                 w\<lparr>trace := trace w @ frame_events (spin_frames v) (1/10)
                                  @ [Random (shd (rand_in w))]
                                  @ frame_events (win_frames v) (1/10)
                                  @ [Random (shd (stl (rand_in w)))],
                   rand_in := stl (stl (rand_in w))\<rparr>)
     \<and> (\<forall>j<i. accumulate GAMBLE_WEIGHTS ! j
                  \<le> double (shd (stl (rand_in w)) * last (accumulate GAMBLE_WEIGHTS)))
     \<and> (\<forall>j. i \<le> j \<and> j < 7 \<longrightarrow>
            double (shd (stl (rand_in w)) * last (accumulate GAMBLE_WEIGHTS))
              < accumulate GAMBLE_WEIGHTS ! j)"
proof -
  let ?es = "frame_events (spin_frames v) (1/10) @ [Random (shd (rand_in w))]
               @ frame_events (win_frames v) (1/10)"
  let ?w3 = "w\<lparr>rand_in := stl (rand_in w), trace := trace w @ ?es\<rparr>"
  let ?x = "double (shd (stl (rand_in w)) * last (accumulate GAMBLE_WEIGHTS))"
  have r2: "shd (rand_in ?w3) = shd (stl (rand_in w))" by simp
  from get_payout_draw [of ?w3] obtain i where
    i: "i \<le> 7" "get_payout ?w3 = (Inr (GAMBLE_CHANCES ! i), snd (random_random ?w3))"
    "\<forall>j<i. accumulate GAMBLE_WEIGHTS ! j \<le> ?x"
    "\<forall>j. i \<le> j \<and> j < 7 \<longrightarrow> ?x < accumulate GAMBLE_WEIGHTS ! j"
    unfolding r2 by blast
  have "spin v w = get_payout ?w3"
    using spin_win_eq [OF assms, of v] by simp
  with i(2) have "spin v w = (Inr (GAMBLE_CHANCES ! i), snd (random_random ?w3))"
    by simp
  then have "spin v w = (Inr (GAMBLE_CHANCES ! i),
                         w\<lparr>trace := trace w @ ?es @ [Random (shd (stl (rand_in w)))],
                           rand_in := stl (stl (rand_in w))\<rparr>)"
    by (simp only: after_payout_draw)
  with i(1,3,4) show ?thesis by auto
qed

lemma spin_win:
  assumes "shd (rand_in w) < 0.2"
  shows "\<exists>p \<in> set GAMBLE_CHANCES.
     spin v w = (Inr p, w\<lparr>trace := trace w @ frame_events (spin_frames v) (1/10)
                                  @ [Random (shd (rand_in w))]
                                  @ frame_events (win_frames v) (1/10)
                                  @ [Random (shd (stl (rand_in w)))],
                          rand_in := stl (stl (rand_in w))\<rparr>)"
  using spin_win_draw [OF assms, of v] gamble_chances_nth by blast

text \<open>
  The gate: for the values \<open>random()\<close> can return, comparing with the double of
  the literal \<open>0.2\<close> and comparing with the number give the same answer.
\<close>

lemma double_gate: "double 0.2 = 3602879701896397/18014398509481984"
  by (subst double_eq [of "-3"]) (simp_all add: pow2_def round_even_def)

lemma gate_on_doubles:
  "(real_of_int k / 2 ^ 53 < double 0.2) = (real_of_int k / 2 ^ 53 < 0.2)"
proof -
  have "(real_of_int k / 2 ^ 53 < 3602879701896397/18014398509481984)
          = (real_of_int (2 * k) < real_of_int 3602879701896397)"
    by (simp add: field_simps)
  also have "\<dots> = (2 * k < 3602879701896397)"
    by (simp only: of_int_less_iff)
  also have "\<dots> = (5 * k < 9007199254740992)"
    by presburger
  also have "\<dots> = (real_of_int (5 * k) < real_of_int 9007199254740992)"
    by (simp only: of_int_less_iff)
  also have "\<dots> = (real_of_int k / 2 ^ 53 < 0.2)"
    by (simp add: field_simps)
  finally show ?thesis by (simp only: double_gate)
qed

text \<open>
  Three spins worked out: a win of 10000, a win whose scaled draw rounds to the double
  just below the running sum 2 and so pays 100, and a loss.
\<close>

lemma draw_win_world:
  "double (511/512 * last (accumulate GAMBLE_WEIGHTS)) = 6429816455885225/2251799813685248"
  unfolding total_weights
  by (subst double_eq [of 1]) (simp_all add: pow2_def round_even_def)

lemma draw_boundary_world:
  "double (6296539150465566 / 2 ^ 53 * last (accumulate GAMBLE_WEIGHTS))
     = 9007199254740991/4503599627370496"
  unfolding total_weights
  by (subst double_eq [of 0]) (simp_all add: pow2_def round_even_def)

lemma spin_win_world:
  "spin demo_video win_world
     = (Inr 10000,
        win_world\<lparr>trace := [Display 0, Sleep (1/10), Random (1/8), Display 1, Sleep (1/10),
                             Random (511/512)],
                  rand_in := sconst (1/2)\<rparr>)"
proof -
  let ?w3 = "win_world\<lparr>rand_in := stl (rand_in win_world),
                trace := trace win_world @ frame_events (spin_frames demo_video) (1/10)
                           @ [Random (shd (rand_in win_world))]
                           @ frame_events (win_frames demo_video) (1/10)\<rparr>"
  have win: "shd (rand_in win_world) < 0.2"
    by (simp add: win_world_def demo_world_def)
  have r2: "shd (rand_in ?w3) = 511/512"
    by (simp add: win_world_def demo_world_def)
  have "bisect (accumulate GAMBLE_WEIGHTS)
          (double (shd (rand_in ?w3) * last (accumulate GAMBLE_WEIGHTS))) 0 7 = Inr 6"
    unfolding r2 draw_win_world
    by (simp add: accumulate_weights bisect.simps)
  then have "get_payout ?w3 = (Inr (GAMBLE_CHANCES ! 6), snd (random_random ?w3))"
    by (rule get_payout_index) simp
  with spin_win_eq [OF win, of demo_video]
  have "spin demo_video win_world = (Inr (GAMBLE_CHANCES ! 6), snd (random_random ?w3))"
    by simp
  then show ?thesis
    by (simp add: GAMBLE_CHANCES_def random_random_def emit_def frame_events_def
        demo_video_def win_world_def demo_world_def)
qed

lemma spin_boundary_world:
  "fst (spin demo_video boundary_world) = Inr 100"
proof -
  let ?w3 = "boundary_world\<lparr>rand_in := stl (rand_in boundary_world),
                trace := trace boundary_world @ frame_events (spin_frames demo_video) (1/10)
                           @ [Random (shd (rand_in boundary_world))]
                           @ frame_events (win_frames demo_video) (1/10)\<rparr>"
  have win: "shd (rand_in boundary_world) < 0.2"
    by (simp add: boundary_world_def demo_world_def)
  have r2: "shd (rand_in ?w3) = 6296539150465566 / 2 ^ 53"
    by (simp add: boundary_world_def demo_world_def)
  have "bisect (accumulate GAMBLE_WEIGHTS)
          (double (shd (rand_in ?w3) * last (accumulate GAMBLE_WEIGHTS))) 0 7 = Inr 2"
    unfolding r2 draw_boundary_world
    by (simp add: accumulate_weights bisect.simps)
  then have "get_payout ?w3 = (Inr (GAMBLE_CHANCES ! 2), snd (random_random ?w3))"
    by (rule get_payout_index) simp
  with spin_win_eq [OF win, of demo_video]
  have "fst (spin demo_video boundary_world) = Inr (GAMBLE_CHANCES ! 2)"
    by simp
  then show ?thesis
    by (simp add: GAMBLE_CHANCES_def)
qed

lemma spin_demo_world:
  "spin demo_video demo_world
     = (Inr 0, demo_world\<lparr>trace := [Display 0, Sleep (1/10), Random (1/2), Display 2,
                                     Sleep (1/10)]\<rparr>)"
proof -
  have loss: "\<not> shd (rand_in demo_world) < 0.2"
    by (simp add: demo_world_def)
  show ?thesis
    unfolding spin_loss [OF loss]
    by (simp add: frame_events_def demo_video_def demo_world_def)
qed

text \<open>
  C3, as amended. \<open>spin\<close> plays the spin animation, then draws the gate, then
  plays the win animation when the gate opened and the lose animation otherwise, and only
  then, on a win, makes the payout draw: its result is whatever \<open>get_payout\<close>
  returns in the world the win animation has left, and on a loss it is 0 with nothing more
  drawn. It always returns a payout, and the events it adds are, in this order: the frames
  of the spin animation, each followed by its delay; the draw of the gate; then the frames
  of the win animation followed by the draw of the payout, or the frames of the lose
  animation.
\<close>

theorem spin_sequence:
  "spin v w =
     (if shd (rand_in w) < 0.2
      then get_payout (w\<lparr>rand_in := stl (rand_in w),
                         trace := trace w @ frame_events (spin_frames v) (1/10)
                                    @ [Random (shd (rand_in w))]
                                    @ frame_events (win_frames v) (1/10)\<rparr>)
      else (Inr 0, w\<lparr>trace := trace w @ frame_events (spin_frames v) (1/10)
                                   @ [Random (shd (rand_in w))]
                                   @ frame_events (lose_frames v) (1/10),
                      rand_in := stl (rand_in w)\<rparr>))
   \<and> (\<exists>p. fst (spin v w) = Inr p)
   \<and> events_since w (snd (spin v w)) =
       frame_events (spin_frames v) (1/10)
       @ [Random (shd (rand_in w))]
       @ (if shd (rand_in w) < 0.2
          then frame_events (win_frames v) (1/10) @ [Random (shd (stl (rand_in w)))]
          else frame_events (lose_frames v) (1/10))"
proof (cases "shd (rand_in w) < 0.2")
  case True
  from spin_win [OF True, of v] obtain p where
    res: "spin v w = (Inr p, w\<lparr>trace := trace w @ frame_events (spin_frames v) (1/10)
                                  @ [Random (shd (rand_in w))]
                                  @ frame_events (win_frames v) (1/10)
                                  @ [Random (shd (stl (rand_in w)))],
                          rand_in := stl (stl (rand_in w))\<rparr>)"
    by blast
  have a: "spin v w = get_payout (w\<lparr>rand_in := stl (rand_in w),
                         trace := trace w @ frame_events (spin_frames v) (1/10)
                                    @ [Random (shd (rand_in w))]
                                    @ frame_events (win_frames v) (1/10)\<rparr>)"
    by (rule spin_win_eq [OF True])
  have b: "\<exists>p. fst (spin v w) = Inr p"
    by (simp add: res)
  have c: "events_since w (snd (spin v w)) =
       frame_events (spin_frames v) (1/10) @ [Random (shd (rand_in w))]
       @ frame_events (win_frames v) (1/10) @ [Random (shd (stl (rand_in w)))]"
    by (simp add: res events_since_def)
  from a b c show ?thesis
    by (simp only: True if_True)
next
  case False
  from spin_loss [OF False, of v] False show ?thesis by (simp add: events_since_def)
qed

theorem spin_sequence_witness:
  "\<not> shd (rand_in demo_world) < 0.2
   \<and> spin demo_video demo_world
       = (Inr 0, demo_world\<lparr>trace := [Display 0, Sleep (1/10), Random (1/2), Display 2,
                                       Sleep (1/10)]\<rparr>)
   \<and> shd (rand_in win_world) < 0.2
   \<and> fst (spin demo_video win_world) = Inr 10000
   \<and> get_payout (win_world\<lparr>rand_in := 511/512 ## sconst (1/2),
                            trace := [Display 0, Sleep (1/10), Random (1/8), Display 1,
                                      Sleep (1/10)]\<rparr>)
       = (Inr 10000,
          win_world\<lparr>trace := [Display 0, Sleep (1/10), Random (1/8), Display 1, Sleep (1/10),
                               Random (511/512)],
                    rand_in := sconst (1/2)\<rparr>)"
proof -
  have gates: "\<not> shd (rand_in demo_world) < 0.2" "shd (rand_in win_world) < 0.2"
    by (simp_all add: win_world_def demo_world_def)
  have w3: "win_world\<lparr>rand_in := stl (rand_in win_world),
                trace := trace win_world @ frame_events (spin_frames demo_video) (1/10)
                           @ [Random (shd (rand_in win_world))]
                           @ frame_events (win_frames demo_video) (1/10)\<rparr>
            = win_world\<lparr>rand_in := 511/512 ## sconst (1/2),
                            trace := [Display 0, Sleep (1/10), Random (1/8), Display 1,
                                      Sleep (1/10)]\<rparr>"
    by (simp add: win_world_def demo_world_def frame_events_def demo_video_def)
  from spin_sequence [of demo_video win_world] gates(2)
  have "spin demo_video win_world
          = get_payout (win_world\<lparr>rand_in := 511/512 ## sconst (1/2),
                            trace := [Display 0, Sleep (1/10), Random (1/8), Display 1,
                                      Sleep (1/10)]\<rparr>)"
    by (simp only: w3 if_True)
  with spin_win_world spin_demo_world gates show ?thesis
    by simp
qed

text \<open>
  C3, as stated, fails on a winning turn: the payout is drawn once the win animation has
  played, not between the gate and the animation.
\<close>

theorem spin_draws_payout_after_win_animation:
  "events_since win_world (snd (spin demo_video win_world))
     = [Display 0, Sleep (1/10), Random (1/8), Display 1, Sleep (1/10), Random (511/512)]
   \<and> events_since win_world (snd (spin demo_video win_world))
     \<noteq> [Display 0, Sleep (1/10), Random (1/8), Random (511/512), Display 1, Sleep (1/10)]"
proof -
  have "trace win_world = []"
    by (simp add: win_world_def demo_world_def)
  then have "events_since win_world (snd (spin demo_video win_world))
     = [Display 0, Sleep (1/10), Random (1/8), Display 1, Sleep (1/10), Random (511/512)]"
    by (simp add: spin_win_world events_since_def)
  then show ?thesis by simp
qed

text \<open>
  C4. \<open>spin\<close> returns a payout for every display and every world. Its first draw
  from the random source is the gate: when that value is below 0.2 the turn is a win,
  otherwise the payout is 0 and nothing more is drawn. On a win a second value is drawn,
  last of all, and multiplied by the total of the weights; the payout is the amount of
  \<open>GAMBLE_CHANCES\<close> at the index whose interval of the running sums of
  \<open>GAMBLE_WEIGHTS\<close> holds that product: every running sum before the index is at
  most the product, and every one from the index on, the last apart, is above it. The
  running sums are the doubles listed first. So the payout is one of the amounts and
  positive on a win, never negative, and positive exactly when the gate opened.
\<close>

theorem spin_payout:
  "accumulate GAMBLE_WEIGHTS =
     [1/2, 3/2, 2, 5404319552844595/2251799813685248, 11/4,
      6417629469002957/2251799813685248, 6440147467139809/2251799813685248,
      3221199633476747/1125899906842624]
   \<and> (\<exists>p. fst (spin v w) = Inr p
      \<and> (if shd (rand_in w) < 0.2 then p \<in> set GAMBLE_CHANCES \<and> 0 < p else p = 0)
      \<and> 0 \<le> p
      \<and> (0 < p) = (shd (rand_in w) < 0.2)
      \<and> Random (shd (rand_in w)) \<in> set (events_since w (snd (spin v w)))
      \<and> (shd (rand_in w) < 0.2 \<longrightarrow>
           rand_in (snd (spin v w)) = stl (stl (rand_in w))
         \<and> last (events_since w (snd (spin v w))) = Random (shd (stl (rand_in w)))
         \<and> (\<exists>i\<le>7. p = GAMBLE_CHANCES ! i
               \<and> (\<forall>j<i. accumulate GAMBLE_WEIGHTS ! j
                       \<le> double (shd (stl (rand_in w)) * last (accumulate GAMBLE_WEIGHTS)))
               \<and> (\<forall>j. i \<le> j \<and> j < 7 \<longrightarrow>
                       double (shd (stl (rand_in w)) * last (accumulate GAMBLE_WEIGHTS))
                         < accumulate GAMBLE_WEIGHTS ! j)))
      \<and> (\<not> shd (rand_in w) < 0.2 \<longrightarrow> rand_in (snd (spin v w)) = stl (rand_in w)))"
proof -
  have main: "\<exists>p. fst (spin v w) = Inr p
      \<and> (if shd (rand_in w) < 0.2 then p \<in> set GAMBLE_CHANCES \<and> 0 < p else p = 0)
      \<and> 0 \<le> p
      \<and> (0 < p) = (shd (rand_in w) < 0.2)
      \<and> Random (shd (rand_in w)) \<in> set (events_since w (snd (spin v w)))
      \<and> (shd (rand_in w) < 0.2 \<longrightarrow>
           rand_in (snd (spin v w)) = stl (stl (rand_in w))
         \<and> last (events_since w (snd (spin v w))) = Random (shd (stl (rand_in w)))
         \<and> (\<exists>i\<le>7. p = GAMBLE_CHANCES ! i
               \<and> (\<forall>j<i. accumulate GAMBLE_WEIGHTS ! j
                       \<le> double (shd (stl (rand_in w)) * last (accumulate GAMBLE_WEIGHTS)))
               \<and> (\<forall>j. i \<le> j \<and> j < 7 \<longrightarrow>
                       double (shd (stl (rand_in w)) * last (accumulate GAMBLE_WEIGHTS))
                         < accumulate GAMBLE_WEIGHTS ! j)))
      \<and> (\<not> shd (rand_in w) < 0.2 \<longrightarrow> rand_in (snd (spin v w)) = stl (rand_in w))"
  proof (cases "shd (rand_in w) < 0.2")
    case True
    let ?x = "double (shd (stl (rand_in w)) * last (accumulate GAMBLE_WEIGHTS))"
    from spin_win_draw [OF True, of v] obtain i where
      i: "i \<le> 7"
      "spin v w = (Inr (GAMBLE_CHANCES ! i),
                   w\<lparr>trace := trace w @ frame_events (spin_frames v) (1/10)
                                    @ [Random (shd (rand_in w))]
                                    @ frame_events (win_frames v) (1/10)
                                    @ [Random (shd (stl (rand_in w)))],
                     rand_in := stl (stl (rand_in w))\<rparr>)"
      "\<forall>j<i. accumulate GAMBLE_WEIGHTS ! j \<le> ?x"
      "\<forall>j. i \<le> j \<and> j < 7 \<longrightarrow> ?x < accumulate GAMBLE_WEIGHTS ! j"
      by blast
    let ?p = "GAMBLE_CHANCES ! i"
    from i(1) have mem: "?p \<in> set GAMBLE_CHANCES" by (rule gamble_chances_nth)
    then have pos: "0 < ?p" by (rule gamble_chances_positive)
    have a: "fst (spin v w) = Inr ?p"
      and b: "rand_in (snd (spin v w)) = stl (stl (rand_in w))"
      and c: "last (events_since w (snd (spin v w))) = Random (shd (stl (rand_in w)))"
      and d: "Random (shd (rand_in w)) \<in> set (events_since w (snd (spin v w)))"
      by (simp_all add: i(2) events_since_def)
    from i(1,3,4) have e: "\<exists>i\<le>7. ?p = GAMBLE_CHANCES ! i
                 \<and> (\<forall>j<i. accumulate GAMBLE_WEIGHTS ! j \<le> ?x)
                 \<and> (\<forall>j. i \<le> j \<and> j < 7 \<longrightarrow> ?x < accumulate GAMBLE_WEIGHTS ! j)"
      by blast
    from True a b c d e mem pos show ?thesis
      by (intro exI [of _ ?p]) simp
  next
    case False
    from spin_loss [OF False, of v] False show ?thesis by (simp add: events_since_def)
  qed
  from accumulate_weights main show ?thesis
    by (rule conjI)
qed

theorem spin_payout_witness:
  "shd (rand_in win_world) < 0.2
   \<and> fst (spin demo_video win_world) = Inr 10000
   \<and> double (shd (stl (rand_in win_world)) * last (accumulate GAMBLE_WEIGHTS))
       = 6429816455885225/2251799813685248
   \<and> accumulate GAMBLE_WEIGHTS ! 5 \<le> 6429816455885225/2251799813685248
   \<and> 6429816455885225/2251799813685248 < accumulate GAMBLE_WEIGHTS ! 6
   \<and> GAMBLE_CHANCES ! 6 = 10000
   \<and> shd (rand_in boundary_world) < 0.2
   \<and> fst (spin demo_video boundary_world) = Inr 100
   \<and> \<not> shd (rand_in demo_world) < 0.2
   \<and> fst (spin demo_video demo_world) = Inr 0"
proof -
  have gates: "shd (rand_in win_world) < 0.2" "shd (rand_in boundary_world) < 0.2"
    "\<not> shd (rand_in demo_world) < 0.2"
    by (simp_all add: win_world_def boundary_world_def demo_world_def)
  have r2: "shd (stl (rand_in win_world)) = 511/512"
    by (simp add: win_world_def demo_world_def)
  have cum: "accumulate GAMBLE_WEIGHTS ! 5 \<le> 6429816455885225/2251799813685248"
    "6429816455885225/2251799813685248 < accumulate GAMBLE_WEIGHTS ! 6"
    "GAMBLE_CHANCES ! 6 = 10000"
    by (simp_all add: accumulate_weights GAMBLE_CHANCES_def)
  have draw: "double (shd (stl (rand_in win_world)) * last (accumulate GAMBLE_WEIGHTS))
                = 6429816455885225/2251799813685248"
    by (simp only: r2 draw_win_world)
  have res: "fst (spin demo_video win_world) = Inr 10000"
    "fst (spin demo_video boundary_world) = Inr 100"
    "fst (spin demo_video demo_world) = Inr 0"
    by (simp_all add: spin_win_world spin_boundary_world spin_demo_world)
  from spin_payout [of demo_video win_world] spin_payout [of demo_video boundary_world]
    spin_payout [of demo_video demo_world]
    gates cum draw res
  show ?thesis
    by blast
qed

section \<open>Properties of the turn\<close>

lemma connect_success:
  "fst (connect s w) \<Longrightarrow> link_up (fst (snd (connect s w)))"
  by (simp add: connect_def Serial_open_def link_up_def split: option.splits if_splits)

lemma loop_body_serial_comm: "serial_comm (fst (snd (loop_body g w))) = serial_comm g"
  by (simp add: loop_body_def split_beta split: sum.splits)

lemma writes_of_append: "writes_of (xs @ ys) = writes_of xs @ writes_of ys"
  by (induction xs rule: writes_of.induct) simp_all

lemma writes_of_frame_events: "writes_of (frame_events fs d) = []"
  by (induction fs) (simp_all add: frame_events_def)

lemma serial_frame_events: "filter is_serial_event (frame_events fs d) = []"
  by (induction fs) (simp_all add: frame_events_def)

lemma send_data_calls:
  assumes "connected s" and "connection s = Some c"
  shows "\<exists>es. trace (snd (send_data s (str d) w)) = trace w @ es \<and> writes_of es = [line d]
              \<and> rand_in (snd (send_data s (str d) w)) = rand_in w"
proof (cases "is_open c")
  case False
  with assms show ?thesis
    by (simp add: send_data_def send_data_try_def Serial_write_def emit_def print_def
        utf8_encode_str_line Let_def)
next
  case True
  show ?thesis
  proof (cases "shd (io_in w)")
    case (Some e)
    with assms True show ?thesis
      by (simp add: send_data_def send_data_try_def Serial_write_def emit_def print_def
          utf8_encode_str_line Let_def)
  next
    case None
    with assms True show ?thesis
      by (cases "shd (stl (io_in w))")
         (simp_all add: send_data_def send_data_try_def Serial_write_def Serial_flush_def
          emit_def print_def utf8_encode_str_line Let_def)
  qed
qed

lemma send_gamble_calls:
  assumes "connected (serial_comm g)" and "connection (serial_comm g) = Some c"
  shows "\<exists>es. trace (send_gamble g w) = trace w @ es
              \<and> writes_of es = [line ''GAMBLE 200'']
              \<and> rand_in (send_gamble g w) = rand_in w"
proof -
  let ?w0 = "print ''Spin button pressed! Starting spin...'' w"
  have amt: "str_int GAMBLE_AMT = ''200''"
    by (simp add: GAMBLE_AMT_def str_int_def digit_char_def)
  from send_data_calls [OF assms, of "''GAMBLE 200''" ?w0] obtain es where
    es: "trace (snd (send_data (serial_comm g) (str ''GAMBLE 200'') ?w0)) = trace ?w0 @ es"
    "writes_of es = [line ''GAMBLE 200'']"
    "rand_in (snd (send_data (serial_comm g) (str ''GAMBLE 200'') ?w0)) = rand_in ?w0"
    by blast
  have "trace (send_gamble g w)
          = trace w @ (Print ''Spin button pressed! Starting spin...'' # es
                         @ [Print (''Sent: GAMBLE '' @ str_int GAMBLE_AMT)])"
    using es(1) by (simp add: send_gamble_def amt print_def emit_def)
  moreover have "writes_of (Print ''Spin button pressed! Starting spin...'' # es
                         @ [Print (''Sent: GAMBLE '' @ str_int GAMBLE_AMT)])
                   = [line ''GAMBLE 200'']"
    using es(2) by (simp add: writes_of_append)
  moreover have "rand_in (send_gamble g w) = rand_in w"
    using es(3) by (simp add: send_gamble_def amt print_def emit_def)
  ultimately show ?thesis by blast
qed

lemma send_result_calls:
  assumes "connected (serial_comm g)" and "connection (serial_comm g) = Some c"
  shows "\<exists>es. trace (send_result g p w) = trace w @ es
              \<and> writes_of es = [line (if 0 < p then ''WIN '' @ str_int p else ''LOSE'')]"
proof -
  let ?d = "if 0 < p then ''WIN '' @ str_int p else ''LOSE''"
  from send_data_calls [OF assms, of ?d w] obtain es where
    es: "trace (snd (send_data (serial_comm g) (str ?d) w)) = trace w @ es"
    "writes_of es = [line ?d]"
    by blast
  show ?thesis
  proof (cases "0 < p")
    case True
    with es have "trace (send_result g p w)
       = trace w @ (es @ [Print (''Sent: WIN '' @ str_int p @ '' - Won payout: '' @ str_int p)])"
      by (simp add: send_result_def print_def emit_def)
    moreover from True es(2)
    have "writes_of (es @ [Print (''Sent: WIN '' @ str_int p @ '' - Won payout: '' @ str_int p)])
            = [line ?d]"
      by (simp add: writes_of_append)
    ultimately show ?thesis by blast
  next
    case False
    with es have "trace (send_result g p w)
       = trace w @ (es @ [Print ''Sent: LOSE - No payout''])"
      by (simp add: send_result_def print_def emit_def)
    moreover from False es(2)
    have "writes_of (es @ [Print ''Sent: LOSE - No payout'']) = [line ?d]"
      by (simp add: writes_of_append)
    ultimately show ?thesis by blast
  qed
qed

lemma spin_calls:
  "\<exists>p w' es. spin v w = (Inr p, w')
          \<and> trace w' = trace w @ es
          \<and> filter is_serial_event es = []
          \<and> (0 < p) = (shd (rand_in w) < 0.2)"
proof (cases "shd (rand_in w) < 0.2")
  case True
  from spin_win [OF True, of v] obtain p where
    p: "p \<in> set GAMBLE_CHANCES"
    "spin v w = (Inr p, w\<lparr>trace := trace w @ frame_events (spin_frames v) (1/10)
                                  @ [Random (shd (rand_in w))]
                                  @ frame_events (win_frames v) (1/10)
                                  @ [Random (shd (stl (rand_in w)))],
                          rand_in := stl (stl (rand_in w))\<rparr>)"
    by blast
  from p(1) have "0 < p" by (rule gamble_chances_positive)
  with p(2) True show ?thesis
    by (auto simp add: serial_frame_events)
next
  case False
  from spin_loss [OF False, of v] False show ?thesis
    by (auto simp add: serial_frame_events)
qed

lemma writes_of_no_serial: "filter is_serial_event es = [] \<Longrightarrow> writes_of es = []"
  by (induction es rule: writes_of.induct) (simp_all split: if_splits)

lemma events_since_eq: "trace w' = trace w @ es \<Longrightarrow> events_since w w' = es"
  by (simp add: events_since_def)

text \<open>
  C2. In a pass of the loop in which the poll reports a rising edge, with the link
  connected as \<open>main\<close> leaves it: the wager notice \<open>GAMBLE 200\<close> is the one
  line written before the spin starts; the spin touches the serial port not at all; the one
  line written after it is \<open>WIN\<close> with the payout when the payout is positive and
  \<open>LOSE\<close> otherwise; after that come only the cooldown of one second and the poll
  delay. So the pass makes exactly these two writes, in this order, whatever the transport
  answers, and the payout is positive exactly when the gate opened. The instance below
  shows the bytes on the wire for a losing and for a winning turn.
\<close>

theorem turn_messages:
  assumes "connected (serial_comm g)" and "connection (serial_comm g) = Some c"
    and "sample_pressed w 0" and "\<not> last_state (spin_button g)"
  shows "\<exists>p w1 w2 w3.
           w1 = send_gamble g (snd (GPIO_input (pin (spin_button g)) w))
         \<and> spin (video_player g) w1 = (Inr p, w2)
         \<and> w3 = send_result g p w2
         \<and> loop_body g w
              = (None, g\<lparr>spin_button := (spin_button g)\<lparr>last_state := True\<rparr>\<rparr>,
                 sleep 0.05 (sleep 1 w3))
         \<and> writes_of (events_since w w1) = [line ''GAMBLE 200'']
         \<and> filter is_serial_event (events_since w1 w2) = []
         \<and> writes_of (events_since w2 w3)
              = [line (if 0 < p then ''WIN '' @ str_int p else ''LOSE'')]
         \<and> events_since w3 (sleep 0.05 (sleep 1 w3)) = [Sleep 1, Sleep 0.05]
         \<and> writes_of (events_since w (sleep 0.05 (sleep 1 w3)))
              = [line ''GAMBLE 200'', line (if 0 < p then ''WIN '' @ str_int p else ''LOSE'')]
         \<and> (0 < p) = (shd (rand_in w) < 0.2)"
proof -
  let ?b = "(spin_button g)\<lparr>last_state := True\<rparr>"
  let ?w0 = "snd (GPIO_input (pin (spin_button g)) w)"
  let ?w1 = "send_gamble g ?w0"
  have poll: "was_just_pressed (spin_button g) w = (True, ?b, ?w0)"
    using assms(3,4) by (simp add: was_just_pressed_eq)
  have t0: "trace ?w0 = trace w @ [GpioInput (pin (spin_button g)) (shd (gpio_in w))]"
    and r0: "rand_in ?w0 = rand_in w"
    by (simp_all add: GPIO_input_def emit_def)
  from send_gamble_calls [OF assms(1,2), of ?w0] obtain e1 where
    e1: "trace ?w1 = trace ?w0 @ e1" "writes_of e1 = [line ''GAMBLE 200'']"
    "rand_in ?w1 = rand_in ?w0"
    by blast
  from spin_calls [of "video_player g" ?w1] obtain p w2 e2 where
    e2: "spin (video_player g) ?w1 = (Inr p, w2)"
    "trace w2 = trace ?w1 @ e2"
    "filter is_serial_event e2 = []"
    "(0 < p) = (shd (rand_in ?w1) < 0.2)"
    by blast
  let ?w2 = "w2"
  let ?w3 = "send_result g p ?w2"
  let ?d = "if 0 < p then ''WIN '' @ str_int p else ''LOSE''"
  from send_result_calls [OF assms(1,2), of p ?w2] obtain e3 where
    e3: "trace ?w3 = trace ?w2 @ e3" "writes_of e3 = [line ?d]"
    by blast
  have body: "loop_body g w = (None, g\<lparr>spin_button := ?b\<rparr>, sleep 0.05 (sleep 1 ?w3))"
    using e2(1) by (simp add: loop_body_def poll)
  have s1: "writes_of (events_since w ?w1) = [line ''GAMBLE 200'']"
    using e1(1,2) t0 by (simp add: events_since_def)
  have s2: "filter is_serial_event (events_since ?w1 ?w2) = []"
    using e2(2,3) by (simp add: events_since_def)
  have s3: "writes_of (events_since ?w2 ?w3) = [line ?d]"
    using e3 by (simp add: events_since_def)
  have s4: "events_since ?w3 (sleep 0.05 (sleep 1 ?w3)) = [Sleep 1, Sleep 0.05]"
    by (simp add: events_since_def sleep_def emit_def)
  have "trace (sleep 0.05 (sleep 1 ?w3))
          = trace w @ (GpioInput (pin (spin_button g)) (shd (gpio_in w)) # e1 @ e2 @ e3
                         @ [Sleep 1, Sleep 0.05])"
    using t0 e1(1) e2(2) e3(1) by (simp add: sleep_def emit_def)
  then have "events_since w (sleep 0.05 (sleep 1 ?w3))
          = GpioInput (pin (spin_button g)) (shd (gpio_in w)) # e1 @ e2 @ e3
                         @ [Sleep 1, Sleep 0.05]"
    by (rule events_since_eq)
  then have s5: "writes_of (events_since w (sleep 0.05 (sleep 1 ?w3)))
                   = [line ''GAMBLE 200'', line ?d]"
    using e1(2) e3(2) writes_of_no_serial [OF e2(3)] by (simp add: writes_of_append)
  have s6: "(0 < p) = (shd (rand_in w) < 0.2)"
    using e2(4) e1(3) r0 by simp
  from e2(1) body s1 s2 s3 s4 s5 s6 show ?thesis by blast
qed

lemma loop_body_press_world:
  "loop_body demo_globals press_world
     = (None, demo_globals\<lparr>spin_button := \<lparr>pin = 20, last_state = True\<rparr>\<rparr>,
        press_world\<lparr>trace :=
          [GpioInput 20 0,
           Print ''Spin button pressed! Starting spin...'',
           SerialWrite (line ''GAMBLE 200'') None, SerialFlush None,
           Print ''Sent: GAMBLE 200'',
           Display 0, Sleep (1/10), Random (1/2), Display 2, Sleep (1/10),
           SerialWrite (line ''LOSE'') None, SerialFlush None,
           Print ''Sent: LOSE - No payout'',
           Sleep 1, Sleep (1/20)],
          gpio_in := sconst 1, rand_in := sconst (1/2)\<rparr>)"
proof -
  let ?w0 = "snd (GPIO_input 20 press_world)"
  have amt: "str_int GAMBLE_AMT = ''200''"
    by (simp add: GAMBLE_AMT_def str_int_def digit_char_def)
  have poll: "was_just_pressed (spin_button demo_globals) press_world
                = (True, \<lparr>pin = 20, last_state = True\<rparr>, ?w0)"
    by (simp add: was_just_pressed_eq demo_globals_def Button_init_def sample_pressed_def
        press_world_def demo_world_def GPIO_LOW_def)
  have w0: "?w0 = press_world\<lparr>trace := [GpioInput 20 0], gpio_in := sconst 1\<rparr>"
    by (simp add: GPIO_input_def emit_def press_world_def demo_world_def)
  have up: "connected up_link" "connection up_link = Some \<lparr>is_open = True\<rparr>"
    by (simp_all add: up_link_def)
  let ?w1 = "press_world\<lparr>trace :=
          [GpioInput 20 0,
           Print ''Spin button pressed! Starting spin...'',
           SerialWrite (line ''GAMBLE 200'') None, SerialFlush None,
           Print ''Sent: GAMBLE 200''], gpio_in := sconst 1\<rparr>"
  have w1: "send_gamble demo_globals ?w0 = ?w1"
    unfolding w0
    by (simp add: send_gamble_def amt demo_globals_def print_def emit_def
        send_data_str_ok [OF up] press_world_def demo_world_def)
  let ?w2 = "press_world\<lparr>trace :=
          [GpioInput 20 0,
           Print ''Spin button pressed! Starting spin...'',
           SerialWrite (line ''GAMBLE 200'') None, SerialFlush None,
           Print ''Sent: GAMBLE 200'',
           Display 0, Sleep (1/10), Random (1/2), Display 2, Sleep (1/10)],
          gpio_in := sconst 1, rand_in := sconst (1/2)\<rparr>"
  have loss: "\<not> shd (rand_in ?w1) < 0.2"
    by (simp add: press_world_def demo_world_def)
  have w2: "spin demo_video ?w1 = (Inr 0, ?w2)"
    unfolding spin_loss [OF loss]
    by (simp add: frame_events_def demo_video_def press_world_def demo_world_def)
  let ?w3 = "press_world\<lparr>trace :=
          [GpioInput 20 0,
           Print ''Spin button pressed! Starting spin...'',
           SerialWrite (line ''GAMBLE 200'') None, SerialFlush None,
           Print ''Sent: GAMBLE 200'',
           Display 0, Sleep (1/10), Random (1/2), Display 2, Sleep (1/10),
           SerialWrite (line ''LOSE'') None, SerialFlush None,
           Print ''Sent: LOSE - No payout''],
          gpio_in := sconst 1, rand_in := sconst (1/2)\<rparr>"
  have w3: "send_result demo_globals 0 ?w2 = ?w3"
    by (simp add: send_result_def demo_globals_def print_def emit_def
        send_data_str_ok [OF up] press_world_def demo_world_def)
  have vp: "video_player demo_globals = demo_video"
    by (simp add: demo_globals_def)
  show ?thesis
    by (simp only: loop_body_def poll prod.case if_True vp w1 w2 sum.case w3)
       (simp add: sleep_def emit_def demo_globals_def)
qed

lemma loop_body_press_win_world:
  "loop_body demo_globals press_win_world
     = (None, demo_globals\<lparr>spin_button := \<lparr>pin = 20, last_state = True\<rparr>\<rparr>,
        press_win_world\<lparr>trace :=
          [GpioInput 20 0,
           Print ''Spin button pressed! Starting spin...'',
           SerialWrite (line ''GAMBLE 200'') None, SerialFlush None,
           Print ''Sent: GAMBLE 200'',
           Display 0, Sleep (1/10), Random (1/8), Display 1, Sleep (1/10), Random (511/512),
           SerialWrite (line ''WIN 10000'') None, SerialFlush None,
           Print ''Sent: WIN 10000 - Won payout: 10000'',
           Sleep 1, Sleep (1/20)],
          gpio_in := sconst 1, rand_in := sconst (1/2)\<rparr>)"
proof -
  let ?w0 = "snd (GPIO_input 20 press_win_world)"
  have amt: "str_int GAMBLE_AMT = ''200''"
    by (simp add: GAMBLE_AMT_def str_int_def digit_char_def)
  have won: "str_int 10000 = ''10000''"
    by (simp add: str_int_def digit_char_def)
  have poll: "was_just_pressed (spin_button demo_globals) press_win_world
                = (True, \<lparr>pin = 20, last_state = True\<rparr>, ?w0)"
    by (simp add: was_just_pressed_eq demo_globals_def Button_init_def sample_pressed_def
        press_win_world_def win_world_def demo_world_def GPIO_LOW_def)
  have w0: "?w0 = press_win_world\<lparr>trace := [GpioInput 20 0], gpio_in := sconst 1\<rparr>"
    by (simp add: GPIO_input_def emit_def press_win_world_def win_world_def demo_world_def)
  have up: "connected up_link" "connection up_link = Some \<lparr>is_open = True\<rparr>"
    by (simp_all add: up_link_def)
  let ?w1 = "press_win_world\<lparr>trace :=
          [GpioInput 20 0,
           Print ''Spin button pressed! Starting spin...'',
           SerialWrite (line ''GAMBLE 200'') None, SerialFlush None,
           Print ''Sent: GAMBLE 200''], gpio_in := sconst 1\<rparr>"
  have w1: "send_gamble demo_globals ?w0 = ?w1"
    unfolding w0
    by (simp add: send_gamble_def amt demo_globals_def print_def emit_def
        send_data_str_ok [OF up] press_win_world_def win_world_def demo_world_def)
  let ?w2 = "press_win_world\<lparr>trace :=
          [GpioInput 20 0,
           Print ''Spin button pressed! Starting spin...'',
           SerialWrite (line ''GAMBLE 200'') None, SerialFlush None,
           Print ''Sent: GAMBLE 200'',
           Display 0, Sleep (1/10), Random (1/8), Display 1, Sleep (1/10), Random (511/512)],
          gpio_in := sconst 1, rand_in := sconst (1/2)\<rparr>"
  have win: "shd (rand_in ?w1) < 0.2"
    by (simp add: press_win_world_def win_world_def demo_world_def)
  let ?w1a = "?w1\<lparr>rand_in := stl (rand_in ?w1),
                trace := trace ?w1 @ frame_events (spin_frames demo_video) (1/10)
                           @ [Random (shd (rand_in ?w1))]
                           @ frame_events (win_frames demo_video) (1/10)\<rparr>"
  have r2: "shd (rand_in ?w1a) = 511/512"
    by (simp add: press_win_world_def win_world_def demo_world_def)
  have "bisect (accumulate GAMBLE_WEIGHTS)
          (double (shd (rand_in ?w1a) * last (accumulate GAMBLE_WEIGHTS))) 0 7 = Inr 6"
    unfolding r2 draw_win_world
    by (simp add: accumulate_weights bisect.simps)
  then have "get_payout ?w1a = (Inr (GAMBLE_CHANCES ! 6), snd (random_random ?w1a))"
    by (rule get_payout_index) simp
  with spin_win_eq [OF win, of demo_video]
  have "spin demo_video ?w1 = (Inr (GAMBLE_CHANCES ! 6), snd (random_random ?w1a))"
    by simp
  then have w2: "spin demo_video ?w1 = (Inr 10000, ?w2)"
    by (simp add: GAMBLE_CHANCES_def random_random_def emit_def frame_events_def
        demo_video_def press_win_world_def win_world_def demo_world_def)
  let ?w3 = "press_win_world\<lparr>trace :=
          [GpioInput 20 0,
           Print ''Spin button pressed! Starting spin...'',
           SerialWrite (line ''GAMBLE 200'') None, SerialFlush None,
           Print ''Sent: GAMBLE 200'',
           Display 0, Sleep (1/10), Random (1/8), Display 1, Sleep (1/10), Random (511/512),
           SerialWrite (line ''WIN 10000'') None, SerialFlush None,
           Print ''Sent: WIN 10000 - Won payout: 10000''],
          gpio_in := sconst 1, rand_in := sconst (1/2)\<rparr>"
  have w3: "send_result demo_globals 10000 ?w2 = ?w3"
    by (simp add: send_result_def won demo_globals_def print_def emit_def
        send_data_str_ok [OF up] press_win_world_def win_world_def demo_world_def)
  have vp: "video_player demo_globals = demo_video"
    by (simp add: demo_globals_def)
  show ?thesis
    by (simp only: loop_body_def poll prod.case if_True vp w1 w2 sum.case w3)
       (simp add: sleep_def emit_def demo_globals_def)
qed

lemma line_GAMBLE: "line ''GAMBLE 200'' = [71, 65, 77, 66, 76, 69, 32, 50, 48, 48, 10]"
  by (simp add: line_def encode_utf8_def utf8_char_def utf8_bytes_def LF_def)

lemma line_LOSE: "line ''LOSE'' = [76, 79, 83, 69, 10]"
  by (simp add: line_def encode_utf8_def utf8_char_def utf8_bytes_def LF_def)

lemma line_WIN: "line ''WIN 10000'' = [87, 73, 78, 32, 49, 48, 48, 48, 48, 10]"
  by (simp add: line_def encode_utf8_def utf8_char_def utf8_bytes_def LF_def)

theorem turn_messages_witness:
  "connected (serial_comm demo_globals)
   \<and> connection (serial_comm demo_globals) = Some \<lparr>is_open = True\<rparr>
   \<and> sample_pressed press_world 0
   \<and> \<not> last_state (spin_button demo_globals)
   \<and> writes_of (trace (snd (snd (loop_body demo_globals press_world))))
       = [line ''GAMBLE 200'', line ''LOSE'']
   \<and> wire (trace (snd (snd (loop_body demo_globals press_world))))
       = [71, 65, 77, 66, 76, 69, 32, 50, 48, 48, 10, 76, 79, 83, 69, 10]
   \<and> wire (trace (snd (snd (loop_body demo_globals press_win_world))))
       = [71, 65, 77, 66, 76, 69, 32, 50, 48, 48, 10, 87, 73, 78, 32, 49, 48, 48, 48, 48, 10]"
proof -
  have pre: "connected (serial_comm demo_globals)"
    "connection (serial_comm demo_globals) = Some \<lparr>is_open = True\<rparr>"
    "sample_pressed press_world 0"
    "\<not> last_state (spin_button demo_globals)"
    by (simp_all add: demo_globals_def up_link_def Button_init_def sample_pressed_def
        press_world_def demo_world_def GPIO_LOW_def)
  have t: "trace press_world = []"
    by (simp add: press_world_def demo_world_def)
  from turn_messages [OF pre] t pre show ?thesis
    by (simp add: loop_body_press_world loop_body_press_win_world
        line_GAMBLE line_LOSE line_WIN)
qed

end
